theory Spec2Isabelle
  imports Main "HOL-Library.AList" "HOL-Library.Monad_Syntax"
begin

section \<open>The value library\<close>

text \<open>
  Modelled from the spec: the value library (Go package \<open>cty\<close>) is a dependency of the
  repository and its sources are not under \<open>src/\<close>. The spec's data model describes a value
  as always either null, unknown (a typed placeholder) or known, structurally typed, and
  composed of attributes, lists, sets, maps and tuples. The operations below are the ones the
  repository's code calls on such values; each follows the library's behaviour for the
  constructs the code uses. A panic of the library or of the repository's code is the result
  \<open>None\<close>.

  A Go \<open>map[string]T\<close> is an association list here: \<open>map_of\<close> is the lookup,
  \<open>AList.update\<close> the assignment \<open>m[k] = v\<close>, and a loop over the map runs in list
  order (one of the orders Go may choose).
\<close>

datatype cty_type =
    NilType
  | cty_Bool
  | cty_Number
  | cty_String
  | DynamicPseudoType
  | cty_List cty_type
  | cty_Set cty_type
  | cty_Map cty_type
  | cty_Tuple "cty_type list"
  | cty_Object "(string \<times> cty_type) list"

datatype cty_value =
    NilVal
  | NullVal cty_type
  | UnknownVal cty_type
  | BoolVal bool
  | NumberIntVal int
  | StringVal string
  | ListV cty_type "cty_value list"
  | SetV cty_type "cty_value list"
  | MapV cty_type "(string \<times> cty_value) list"
  | TupleV "cty_value list"
  | ObjectV "(string \<times> cty_value) list"

text \<open>\<open>Value.Type\<close>: the type a value carries.\<close>

fun Value_Type :: "cty_value \<Rightarrow> cty_type" where
  "Value_Type NilVal = NilType"
| "Value_Type (NullVal t) = t"
| "Value_Type (UnknownVal t) = t"
| "Value_Type (BoolVal b) = cty_Bool"
| "Value_Type (NumberIntVal n) = cty_Number"
| "Value_Type (StringVal s) = cty_String"
| "Value_Type (ListV t vs) = cty_List t"
| "Value_Type (SetV t vs) = cty_Set t"
| "Value_Type (MapV t kvs) = cty_Map t"
| "Value_Type (TupleV vs) = cty_Tuple (map Value_Type vs)"
| "Value_Type (ObjectV kvs) = cty_Object (map (\<lambda>kv. (fst kv, Value_Type (snd kv))) kvs)"

text \<open>\<open>Type.Equals\<close>: object types are compared as maps from attribute name to type.\<close>

fun Type_Equals :: "cty_type \<Rightarrow> cty_type \<Rightarrow> bool"
  and AttrTypes_Equals :: "(string \<times> cty_type) list \<Rightarrow> (string \<times> cty_type) list \<Rightarrow> bool"
  and ElemTypes_Equals :: "cty_type list \<Rightarrow> cty_type list \<Rightarrow> bool" where
  "Type_Equals (cty_List a) t = (case t of cty_List b \<Rightarrow> Type_Equals a b | _ \<Rightarrow> False)"
| "Type_Equals (cty_Set a) t = (case t of cty_Set b \<Rightarrow> Type_Equals a b | _ \<Rightarrow> False)"
| "Type_Equals (cty_Map a) t = (case t of cty_Map b \<Rightarrow> Type_Equals a b | _ \<Rightarrow> False)"
| "Type_Equals (cty_Tuple as) t = (case t of cty_Tuple bs \<Rightarrow> ElemTypes_Equals as bs | _ \<Rightarrow> False)"
| "Type_Equals (cty_Object as) t =
     (case t of cty_Object bs \<Rightarrow> length as = length bs \<and> AttrTypes_Equals as bs | _ \<Rightarrow> False)"
| "Type_Equals NilType t = (t = NilType)"
| "Type_Equals cty_Bool t = (t = cty_Bool)"
| "Type_Equals cty_Number t = (t = cty_Number)"
| "Type_Equals cty_String t = (t = cty_String)"
| "Type_Equals DynamicPseudoType t = (t = DynamicPseudoType)"
| "AttrTypes_Equals [] bs = True"
| "AttrTypes_Equals (kt # as) bs =
     (case map_of bs (fst kt) of
        None \<Rightarrow> False
      | Some b \<Rightarrow> Type_Equals (snd kt) b \<and> AttrTypes_Equals as bs)"
| "ElemTypes_Equals [] bs = (bs = [])"
| "ElemTypes_Equals (a # as) bs =
     (case bs of [] \<Rightarrow> False | b # bs' \<Rightarrow> Type_Equals a b \<and> ElemTypes_Equals as bs')"


text \<open>\<open>Value.IsNull\<close> and \<open>Value.IsKnown\<close>. The zero value \<open>NilVal\<close> holds no payload and so
  reports null.\<close>

fun IsNull :: "cty_value \<Rightarrow> bool" where
  "IsNull NilVal = True"
| "IsNull (NullVal t) = True"
| "IsNull v = False"

fun IsKnown :: "cty_value \<Rightarrow> bool" where
  "IsKnown (UnknownVal t) = False"
| "IsKnown v = True"

definition DynamicVal :: cty_value where
  "DynamicVal = UnknownVal DynamicPseudoType"

fun IsObjectType :: "cty_type \<Rightarrow> bool" where
  "IsObjectType (cty_Object as) = True"
| "IsObjectType t = False"

fun IsListType :: "cty_type \<Rightarrow> bool" where
  "IsListType (cty_List t) = True"
| "IsListType t = False"

fun IsMapType :: "cty_type \<Rightarrow> bool" where
  "IsMapType (cty_Map t) = True"
| "IsMapType t = False"

text \<open>\<open>Type.ElementType\<close> panics on a type that is not a collection type.\<close>

fun ElementType :: "cty_type \<Rightarrow> cty_type option" where
  "ElementType (cty_List t) = Some t"
| "ElementType (cty_Set t) = Some t"
| "ElementType (cty_Map t) = Some t"
| "ElementType t = None"

text \<open>\<open>Type.HasDynamicTypes\<close>: does the type contain the any-type marker anywhere.\<close>

fun HasDynamicTypes :: "cty_type \<Rightarrow> bool" where
  "HasDynamicTypes DynamicPseudoType = True"
| "HasDynamicTypes (cty_List t) = HasDynamicTypes t"
| "HasDynamicTypes (cty_Set t) = HasDynamicTypes t"
| "HasDynamicTypes (cty_Map t) = HasDynamicTypes t"
| "HasDynamicTypes (cty_Tuple ts) = (\<exists>t \<in> set ts. HasDynamicTypes t)"
| "HasDynamicTypes (cty_Object as) = (\<exists>a \<in> set as. HasDynamicTypes (snd a))"
| "HasDynamicTypes t = False"

text \<open>\<open>Value.GetAttr\<close>: a dynamically typed receiver gives the dynamic unknown value; an
  unknown object gives an unknown of the attribute's type; a receiver that is not an object,
  is null, or has no such attribute panics.\<close>

fun GetAttr :: "cty_value \<Rightarrow> string \<Rightarrow> cty_value option" where
  "GetAttr (ObjectV kvs) name = map_of kvs name"
| "GetAttr (UnknownVal t) name =
     (case t of
        DynamicPseudoType \<Rightarrow> Some DynamicVal
      | cty_Object as \<Rightarrow> map_option UnknownVal (map_of as name)
      | _ \<Rightarrow> None)"
| "GetAttr (NullVal t) name =
     (case t of DynamicPseudoType \<Rightarrow> Some DynamicVal | _ \<Rightarrow> None)"
| "GetAttr v name = None"

text \<open>\<open>Value.LengthInt\<close>: tuple and object types know their length from the type alone; any
  other unknown or null value panics, and so does a value that is not a collection.\<close>

fun LengthInt :: "cty_value \<Rightarrow> nat option" where
  "LengthInt (ListV t vs) = Some (length vs)"
| "LengthInt (SetV t vs) = Some (length vs)"
| "LengthInt (MapV t kvs) = Some (length kvs)"
| "LengthInt (TupleV vs) = Some (length vs)"
| "LengthInt (ObjectV kvs) = Some (length kvs)"
| "LengthInt (UnknownVal t) =
     (case t of cty_Tuple ts \<Rightarrow> Some (length ts) | cty_Object as \<Rightarrow> Some (length as) | _ \<Rightarrow> None)"
| "LengthInt (NullVal t) =
     (case t of cty_Tuple ts \<Rightarrow> Some (length ts) | cty_Object as \<Rightarrow> Some (length as) | _ \<Rightarrow> None)"
| "LengthInt v = None"

text \<open>\<open>Value.ElementIterator\<close>, as the list of (key, element) pairs it yields: positions for
  lists and tuples, the element itself for sets, the key string for maps and objects. It
  panics on null, unknown and non-collection values.\<close>

definition index_keys :: "cty_value list \<Rightarrow> (cty_value \<times> cty_value) list" where
  "index_keys vs = zip (map (\<lambda>i. NumberIntVal (int i)) [0..<length vs]) vs"

fun ElementIterator :: "cty_value \<Rightarrow> (cty_value \<times> cty_value) list option" where
  "ElementIterator (ListV t vs) = Some (index_keys vs)"
| "ElementIterator (TupleV vs) = Some (index_keys vs)"
| "ElementIterator (SetV t vs) = Some (map (\<lambda>v. (v, v)) vs)"
| "ElementIterator (MapV t kvs) = Some (map (\<lambda>kv. (StringVal (fst kv), snd kv)) kvs)"
| "ElementIterator (ObjectV kvs) = Some (map (\<lambda>kv. (StringVal (fst kv), snd kv)) kvs)"
| "ElementIterator v = None"

text \<open>\<open>Value.AsString\<close> panics unless the value is a known string.\<close>

fun AsString :: "cty_value \<Rightarrow> string option" where
  "AsString (StringVal s) = Some s"
| "AsString v = None"

text \<open>The payload of a known collection value: its elements, or its entries by key.\<close>

fun elems_of :: "cty_value \<Rightarrow> cty_value list" where
  "elems_of (ListV t vs) = vs"
| "elems_of (SetV t vs) = vs"
| "elems_of (TupleV vs) = vs"
| "elems_of v = []"

fun entries_of :: "cty_value \<Rightarrow> (string \<times> cty_value) list" where
  "entries_of (MapV t kvs) = kvs"
| "entries_of (ObjectV kvs) = kvs"
| "entries_of v = []"

text \<open>The early exits of \<open>Equals\<close>, taken before the payloads are looked at: \<open>Some r\<close> is the
  result \<open>r\<close>, \<open>None\<close> means that both values are known, non-null and of equal type.\<close>

definition Equals_early :: "cty_value \<Rightarrow> cty_value \<Rightarrow> cty_value option" where
  "Equals_early val other =
     (if Value_Type val = DynamicPseudoType \<or> Value_Type other = DynamicPseudoType then Some (UnknownVal cty_Bool)
      else if \<not> Type_Equals (Value_Type val) (Value_Type other) then Some (BoolVal False)
      else if \<not> (IsKnown val \<and> IsKnown other) then Some (UnknownVal cty_Bool)
      else if IsNull val \<or> IsNull other then Some (BoolVal (IsNull val \<and> IsNull other))
      else None)"

text \<open>The element loops of \<open>Equals\<close>. Each takes the comparisons of the receiver's elements
  (\<open>Equals v\<close> for each element \<open>v\<close>) and the other value's elements. An unknown comparison
  returns the unknown boolean at once, a false one ends the loop with false.\<close>

fun Equals_elems :: "(cty_value \<Rightarrow> cty_value) list \<Rightarrow> cty_value list \<Rightarrow> cty_value" where
  "Equals_elems [] ws = BoolVal True"
| "Equals_elems (eqv # eqs) [] = BoolVal True"
| "Equals_elems (eqv # eqs) (w # ws) =
     (if \<not> IsKnown (eqv w) then UnknownVal cty_Bool
      else if eqv w = BoolVal False then BoolVal False
      else Equals_elems eqs ws)"

fun Equals_attrs ::
  "(string \<times> (cty_value \<Rightarrow> cty_value)) list \<Rightarrow> (string \<times> cty_value) list \<Rightarrow> cty_value" where
  "Equals_attrs [] kws = BoolVal True"
| "Equals_attrs (keq # keqs) kws =
     (case map_of kws (fst keq) of
        None \<Rightarrow> BoolVal False
      | Some w \<Rightarrow>
          (if \<not> IsKnown (snd keq w) then UnknownVal cty_Bool
           else if snd keq w = BoolVal False then BoolVal False
           else Equals_attrs keqs kws))"

text \<open>Set membership: an element is in the other set only when a comparison with one of its
  elements is known to be true.\<close>

definition Equals_sets :: "(cty_value \<Rightarrow> cty_value) list \<Rightarrow> cty_value list \<Rightarrow> bool" where
  "Equals_sets eqs ws =
     (list_all (\<lambda>eqv. list_ex (\<lambda>w. eqv w = BoolVal True) ws) eqs \<and>
      list_all (\<lambda>w. list_ex (\<lambda>eqv. eqv w = BoolVal True) eqs) ws)"

text \<open>\<open>Value.Equals\<close>. The result is itself a value: a known boolean or the unknown boolean.
  After the early exits the payloads are compared: primitive values directly, lists, tuples,
  maps and objects element by element, sets by membership.\<close>

primrec Equals :: "cty_value \<Rightarrow> cty_value \<Rightarrow> cty_value" where
  "Equals NilVal = (\<lambda>other.
     case Equals_early NilVal other of Some r \<Rightarrow> r | None \<Rightarrow> BoolVal False)"
| "Equals (NullVal t) = (\<lambda>other.
     case Equals_early (NullVal t) other of Some r \<Rightarrow> r | None \<Rightarrow> BoolVal False)"
| "Equals (UnknownVal t) = (\<lambda>other.
     case Equals_early (UnknownVal t) other of Some r \<Rightarrow> r | None \<Rightarrow> BoolVal False)"
| "Equals (BoolVal b) = (\<lambda>other.
     case Equals_early (BoolVal b) other of Some r \<Rightarrow> r | None \<Rightarrow> BoolVal (other = BoolVal b))"
| "Equals (NumberIntVal n) = (\<lambda>other.
     case Equals_early (NumberIntVal n) other of
       Some r \<Rightarrow> r | None \<Rightarrow> BoolVal (other = NumberIntVal n))"
| "Equals (StringVal s) = (\<lambda>other.
     case Equals_early (StringVal s) other of
       Some r \<Rightarrow> r | None \<Rightarrow> BoolVal (other = StringVal s))"
| "Equals (ListV t vs) = (\<lambda>other.
     case Equals_early (ListV t vs) other of
       Some r \<Rightarrow> r
     | None \<Rightarrow>
         (if length vs = length (elems_of other) then Equals_elems (map Equals vs) (elems_of other)
          else BoolVal False))"
| "Equals (SetV t vs) = (\<lambda>other.
     case Equals_early (SetV t vs) other of
       Some r \<Rightarrow> r | None \<Rightarrow> BoolVal (Equals_sets (map Equals vs) (elems_of other)))"
| "Equals (MapV t kvs) = (\<lambda>other.
     case Equals_early (MapV t kvs) other of
       Some r \<Rightarrow> r
     | None \<Rightarrow>
         (if length kvs = length (entries_of other)
          then Equals_attrs (map (map_prod id Equals) kvs) (entries_of other)
          else BoolVal False))"
| "Equals (TupleV vs) = (\<lambda>other.
     case Equals_early (TupleV vs) other of
       Some r \<Rightarrow> r | None \<Rightarrow> Equals_elems (map Equals vs) (elems_of other))"
| "Equals (ObjectV kvs) = (\<lambda>other.
     case Equals_early (ObjectV kvs) other of
       Some r \<Rightarrow> r
     | None \<Rightarrow> Equals_attrs (map (map_prod id Equals) kvs) (entries_of other))"

text \<open>\<open>Value.True\<close> panics on a null or unknown receiver and on a value that is no boolean.\<close>

fun True_of :: "cty_value \<Rightarrow> bool option" where
  "True_of (BoolVal b) = Some b"
| "True_of v = None"


text \<open>The value constructors. \<open>ListVal\<close>, \<open>SetVal\<close> and \<open>MapVal\<close> panic on an empty
  argument and on elements of inconsistent types; the element type is that of the first
  element that is not dynamically typed, and a dynamically typed null or unknown element
  takes the element type when it is stored. \<open>SetVal\<close> drops an element that is already
  present.\<close>

fun elementType_of :: "cty_value list \<Rightarrow> cty_type" where
  "elementType_of [] = DynamicPseudoType"
| "elementType_of (v # vs) =
     (if Value_Type v = DynamicPseudoType then elementType_of vs else Value_Type v)"

definition consistent_types :: "cty_value list \<Rightarrow> bool" where
  "consistent_types vs =
     list_all (\<lambda>v. Value_Type v = DynamicPseudoType \<or>
                    Type_Equals (elementType_of vs) (Value_Type v)) vs"

fun stored_as :: "cty_type \<Rightarrow> cty_value \<Rightarrow> cty_value" where
  "stored_as ety (NullVal t) = (if t = DynamicPseudoType then NullVal ety else NullVal t)"
| "stored_as ety (UnknownVal t) = (if t = DynamicPseudoType then UnknownVal ety else UnknownVal t)"
| "stored_as ety v = v"

definition set_add :: "cty_value list \<Rightarrow> cty_value \<Rightarrow> cty_value list" where
  "set_add s v = (if list_ex (\<lambda>ev. Equals ev v = BoolVal True) s then s else s @ [v])"

definition ListVal :: "cty_value list \<Rightarrow> cty_value option" where
  "ListVal vals =
     (if vals = [] \<or> \<not> consistent_types vals then None
      else Some (ListV (elementType_of vals) (map (stored_as (elementType_of vals)) vals)))"

definition SetVal :: "cty_value list \<Rightarrow> cty_value option" where
  "SetVal vals =
     (if vals = [] \<or> \<not> consistent_types vals then None
      else Some (SetV (elementType_of vals)
                   (foldl set_add [] (map (stored_as (elementType_of vals)) vals))))"

definition MapVal :: "(string \<times> cty_value) list \<Rightarrow> cty_value option" where
  "MapVal vals =
     (if vals = [] \<or> \<not> consistent_types (map snd vals) then None
      else Some (MapV (elementType_of (map snd vals))
                   (map (\<lambda>kv. (fst kv, stored_as (elementType_of (map snd vals)) (snd kv))) vals)))"

definition ListValEmpty :: "cty_type \<Rightarrow> cty_value" where
  "ListValEmpty ety = ListV ety []"

definition SetValEmpty :: "cty_type \<Rightarrow> cty_value" where
  "SetValEmpty ety = SetV ety []"

definition MapValEmpty :: "cty_type \<Rightarrow> cty_value" where
  "MapValEmpty ety = MapV ety []"

definition TupleVal :: "cty_value list \<Rightarrow> cty_value" where
  "TupleVal vals = TupleV vals"

definition ObjectVal :: "(string \<times> cty_value) list \<Rightarrow> cty_value" where
  "ObjectVal vals = ObjectV vals"

text \<open>A Go loop \<open>for k, x := range kvs { m[k] = x }\<close> over already computed entries.\<close>

definition assign_all :: "(string \<times> 'a) list \<Rightarrow> (string \<times> 'a) list \<Rightarrow> (string \<times> 'a) list" where
  "assign_all kvs m = fold (\<lambda>kv. AList.update (fst kv) (snd kv)) kvs m"

section \<open>Schemas\<close>

text \<open>
  \<open>SchemaBlockType\<close>, \<open>SchemaAttribute\<close> and \<open>SchemaNestedBlockType\<close> of package \<open>tfsdk\<close>;
  package \<open>tfschema\<close> declares the same three structs as \<open>BlockType\<close>, \<open>Attribute\<close> and
  \<open>NestedBlockType\<close>, with the same methods, and the nesting modes without the \<open>Schema\<close>
  prefix. The type \<open>'g\<close> stands for the Go values (\<open>interface{}\<close>) a schema may give as a
  static default.
\<close>

datatype DiagSeverity = diagSeverityInvalid | Error | Warning

datatype PathStep = GetAttrStep string | IndexStep cty_value

record Diagnostic =
  Severity :: DiagSeverity
  Summary :: string
  Detail :: string
  Path :: "PathStep list"

text \<open>The \<open>ValidateFn\<close> field holds any Go value. What the dynamic call wrapper makes of it:
  nil; a value it rejects (not a function, or one of the wrong shape), with the reason; or a
  function of one argument returning diagnostics, given by whether the argument can be
  converted to its parameter type and by what it returns.\<close>

datatype ValidateFn =
    ValidateFn_nil
  | ValidateFn_rejected string
  | ValidateFn_func "cty_value \<Rightarrow> string option" "cty_value \<Rightarrow> Diagnostic list"

datatype NestingMode =
    nestingInvalid | NestingSingle | NestingList | NestingMap | NestingSet

record 'g SchemaAttribute =
  Type :: cty_type
  Required :: bool
  Optional :: bool
  Computed :: bool
  Sensitive :: bool
  Description :: string
  ValidateFn :: ValidateFn
  Default :: "'g option"

datatype 'g SchemaBlockType =
  SchemaBlockType
    (Attributes: "(string \<times> 'g SchemaAttribute) list")
    (NestedBlockTypes: "(string \<times> 'g SchemaNestedBlockType) list")
and 'g SchemaNestedBlockType =
  SchemaNestedBlockType
    (Nesting: NestingMode)
    (Content: "'g SchemaBlockType")
    (MaxItems: int)
    (MinItems: int)

text \<open>\<open>ImpliedCtyType\<close> and \<open>impliedCtyType\<close>.\<close>

primrec ImpliedCtyType :: "'g SchemaBlockType \<Rightarrow> cty_type"
  and impliedCtyType :: "'g SchemaNestedBlockType \<Rightarrow> cty_type" where
  "ImpliedCtyType (SchemaBlockType attrs nbts) =
     cty_Object
       (assign_all (map (map_prod id impliedCtyType) nbts)
          (assign_all (map (map_prod id Type) attrs) []))"
| "impliedCtyType (SchemaNestedBlockType nesting content maxItems minItems) =
     (if nesting = NestingSingle then ImpliedCtyType content
      else if HasDynamicTypes (ImpliedCtyType content) then DynamicPseudoType
      else (case nesting of
              NestingList \<Rightarrow> cty_List (ImpliedCtyType content)
            | NestingSet \<Rightarrow> cty_Set (ImpliedCtyType content)
            | NestingMap \<Rightarrow> cty_Map (ImpliedCtyType content)
            | _ \<Rightarrow> DynamicPseudoType))"


section \<open>Default application\<close>

text \<open>\<open>SchemaAttribute.DefaultValue\<close>. The conversion of the Go value in \<open>Default\<close> to a value
  of the attribute's type is the library's \<open>gocty.ToCtyValue\<close>, a parameter here; \<open>None\<close> is
  its error, on which \<open>DefaultValue\<close> panics.\<close>

definition DefaultValue ::
  "('g \<Rightarrow> cty_type \<Rightarrow> cty_value option) \<Rightarrow> 'g SchemaAttribute \<Rightarrow> cty_value option" where
  "DefaultValue toCty a =
     (case Default a of
        None \<Rightarrow> Some (NullVal (Type a))
      | Some d \<Rightarrow> toCty d (Type a))"

text \<open>The body of the attribute loop of \<open>SchemaBlockType.ApplyDefaults\<close>: the value stored
  under the attribute's name for the given value \<open>gv\<close> of the attribute.\<close>

definition attr_ApplyDefaults ::
  "('g \<Rightarrow> cty_type \<Rightarrow> cty_value option) \<Rightarrow> 'g SchemaAttribute \<Rightarrow> cty_value \<Rightarrow> cty_value option" where
  "attr_ApplyDefaults toCty attrS gv =
     (if IsNull gv then
        (if Computed attrS then Some (UnknownVal (Type attrS)) else DefaultValue toCty attrS)
      else Some gv)"

text \<open>One round of a loop over a schema map: read the member \<open>name\<close> of the given object
  and compute the entry to store under \<open>name\<close>.\<close>

definition entry_of ::
  "cty_value \<Rightarrow> string \<times> (cty_value \<Rightarrow> cty_value option) \<Rightarrow> (string \<times> cty_value) option" where
  "entry_of given nf =
     do { gv \<leftarrow> GetAttr given (fst nf); rv \<leftarrow> snd nf gv; Some (fst nf, rv) }"

text \<open>The element loops of \<open>SchemaNestedBlockType.ApplyDefaults\<close>; \<open>f\<close> is
  \<open>b.Content.ApplyDefaults\<close>.\<close>

definition elems_ApplyDefaults ::
  "(cty_value \<Rightarrow> cty_value option) \<Rightarrow> cty_value \<Rightarrow> cty_value list option" where
  "elems_ApplyDefaults f given =
     do { n \<leftarrow> LengthInt given;
          it \<leftarrow> ElementIterator given;
          those (map (\<lambda>kv. f (snd kv)) it) }"

definition entries_ApplyDefaults ::
  "(cty_value \<Rightarrow> cty_value option) \<Rightarrow> cty_value \<Rightarrow> (string \<times> cty_value) list option" where
  "entries_ApplyDefaults f given =
     do { n \<leftarrow> LengthInt given;
          it \<leftarrow> ElementIterator given;
          kvs \<leftarrow> those (map (\<lambda>kv. do { k \<leftarrow> AsString (fst kv); rv \<leftarrow> f (snd kv); Some (k, rv) }) it);
          Some (assign_all kvs []) }"

text \<open>\<open>SchemaBlockType.ApplyDefaults\<close> and \<open>SchemaNestedBlockType.ApplyDefaults\<close>.\<close>

primrec ApplyDefaults ::
    "('g \<Rightarrow> cty_type \<Rightarrow> cty_value option) \<Rightarrow> 'g SchemaBlockType \<Rightarrow> cty_value \<Rightarrow> cty_value option"
  and nested_ApplyDefaults ::
    "('g \<Rightarrow> cty_type \<Rightarrow> cty_value option) \<Rightarrow> 'g SchemaNestedBlockType \<Rightarrow> cty_value \<Rightarrow> cty_value option"
  where
  "ApplyDefaults toCty (SchemaBlockType attrs nbts) = (\<lambda>given.
     do { avs \<leftarrow> those (map (entry_of given) (map (map_prod id (attr_ApplyDefaults toCty)) attrs));
          bvs \<leftarrow> those (map (entry_of given) (map (map_prod id (nested_ApplyDefaults toCty)) nbts));
          Some (ObjectVal (assign_all bvs (assign_all avs []))) })"
| "nested_ApplyDefaults toCty (SchemaNestedBlockType nesting content maxItems minItems) = (\<lambda>given.
     (case nesting of
        NestingSingle \<Rightarrow>
          (if IsNull given then Some given else ApplyDefaults toCty content given)
      | NestingList \<Rightarrow>
          do { vals \<leftarrow> elems_ApplyDefaults (ApplyDefaults toCty content) given;
               if \<not> IsListType (impliedCtyType (SchemaNestedBlockType nesting content maxItems minItems))
               then Some (TupleVal vals)
               else if vals = []
               then map_option ListValEmpty
                      (ElementType (impliedCtyType (SchemaNestedBlockType nesting content maxItems minItems)))
               else ListVal vals }
      | NestingMap \<Rightarrow>
          do { vals \<leftarrow> entries_ApplyDefaults (ApplyDefaults toCty content) given;
               if \<not> IsMapType (impliedCtyType (SchemaNestedBlockType nesting content maxItems minItems))
               then Some (ObjectVal vals)
               else if vals = []
               then map_option MapValEmpty
                      (ElementType (impliedCtyType (SchemaNestedBlockType nesting content maxItems minItems)))
               else MapVal vals }
      | NestingSet \<Rightarrow>
          do { vals \<leftarrow> elems_ApplyDefaults (ApplyDefaults toCty content) given;
               if vals = []
               then map_option SetValEmpty
                      (ElementType (impliedCtyType (SchemaNestedBlockType nesting content maxItems minItems)))
               else SetVal vals }
      | nestingInvalid \<Rightarrow> None))"


section \<open>Object reader\<close>

text \<open>\<open>objectReaderVal\<close> (fields \<open>schema\<close> and \<open>v\<close>) and \<open>NewObjectReader\<close>.\<close>

record 'g objectReaderVal =
  r_schema :: "'g SchemaBlockType"
  r_v :: cty_value

definition NewObjectReader :: "'g SchemaBlockType \<Rightarrow> cty_value \<Rightarrow> 'g objectReaderVal option" where
  "NewObjectReader schema obj =
     (if IsNull obj \<or> \<not> IsKnown obj then None
      else if \<not> IsObjectType (Value_Type obj) then None
      else Some \<lparr>r_schema = schema, r_v = obj\<rparr>)"

definition reader_Attr :: "'g objectReaderVal \<Rightarrow> string \<Rightarrow> cty_value option" where
  "reader_Attr r name =
     (case map_of (Attributes (r_schema r)) name of
        None \<Rightarrow> None
      | Some attrS \<Rightarrow> GetAttr (r_v r) name)"

definition blockVal ::
  "'g objectReaderVal \<Rightarrow> string \<Rightarrow> ('g SchemaNestedBlockType \<times> cty_value) option" where
  "blockVal r blockType =
     (case map_of (NestedBlockTypes (r_schema r)) blockType of
        None \<Rightarrow> None
      | Some blockS \<Rightarrow> map_option (Pair blockS) (GetAttr (r_v r) blockType))"

definition reader_BlockCount :: "'g objectReaderVal \<Rightarrow> string \<Rightarrow> nat option" where
  "reader_BlockCount r blockType =
     do { bo \<leftarrow> blockVal r blockType;
          (case Nesting (fst bo) of
             NestingSingle \<Rightarrow> (if IsNull (snd bo) then Some 0 else Some 1)
           | _ \<Rightarrow>
               (if IsNull (snd bo) \<or> \<not> IsKnown (snd bo) then Some 0 else LengthInt (snd bo))) }"

definition reader_BlockSingle :: "'g objectReaderVal \<Rightarrow> string \<Rightarrow> 'g objectReaderVal option" where
  "reader_BlockSingle r blockType =
     do { bo \<leftarrow> blockVal r blockType;
          if Nesting (fst bo) \<noteq> NestingSingle then None
          else Some \<lparr>r_schema = Content (fst bo), r_v = snd bo\<rparr> }"

section \<open>Object builder\<close>

text \<open>A Go loop with a local state that a panic abandons.\<close>

fun foldM :: "('a \<Rightarrow> 's \<Rightarrow> 's option) \<Rightarrow> 'a list \<Rightarrow> 's \<Rightarrow> 's option" where
  "foldM f [] s = Some s"
| "foldM f (x # xs) s = (case f x s of None \<Rightarrow> None | Some s' \<Rightarrow> foldM f xs s')"

text \<open>\<open>objectBuilder\<close>, with the fields \<open>schema\<close>, \<open>attrs\<close>, \<open>singleBlocks\<close>, \<open>listBlocks\<close> and
  \<open>mapBlocks\<close>. A nil \<open>*objectBuilder\<close> in \<open>singleBlocks\<close> is \<open>None\<close>. The builder is passed
  and returned where the Go code mutates it through its pointer.\<close>

datatype 'g objectBuilder =
  objectBuilder
    (ob_schema: "'g SchemaBlockType")
    (ob_attrs: "(string \<times> cty_value) list")
    (ob_singleBlocks: "(string \<times> 'g objectBuilder option) list")
    (ob_listBlocks: "(string \<times> 'g objectBuilder list) list")
    (ob_mapBlocks: "(string \<times> (string \<times> 'g objectBuilder) list) list")

text \<open>What one round of the block loop of \<open>newObjectBuilder\<close> stores, and in which map.\<close>

datatype 'g block_entry =
    SingleEntry "'g objectBuilder option"
  | ListEntry "'g objectBuilder list"
  | MapEntry "(string \<times> 'g objectBuilder) list"
  | NoEntry

definition store_entry :: "string \<times> 'g block_entry \<Rightarrow> 'g objectBuilder \<Rightarrow> 'g objectBuilder" where
  "store_entry ne b =
     (case snd ne of
        SingleEntry nb \<Rightarrow>
          objectBuilder (ob_schema b) (ob_attrs b) (AList.update (fst ne) nb (ob_singleBlocks b))
            (ob_listBlocks b) (ob_mapBlocks b)
      | ListEntry nbs \<Rightarrow>
          objectBuilder (ob_schema b) (ob_attrs b) (ob_singleBlocks b)
            (AList.update (fst ne) nbs (ob_listBlocks b)) (ob_mapBlocks b)
      | MapEntry knbs \<Rightarrow>
          objectBuilder (ob_schema b) (ob_attrs b) (ob_singleBlocks b) (ob_listBlocks b)
            (AList.update (fst ne) knbs (ob_mapBlocks b))
      | NoEntry \<Rightarrow> b)"

text \<open>The attribute loop of \<open>newObjectBuilder\<close>.\<close>

definition initial_attr :: "cty_value \<Rightarrow> string \<times> 'g SchemaAttribute \<Rightarrow> (string \<times> cty_value) option" where
  "initial_attr initial na =
     (if initial = NilVal then Some (fst na, NullVal (Type (snd na)))
      else map_option (Pair (fst na)) (GetAttr initial (fst na)))"

text \<open>One round of the block loop of \<open>newObjectBuilder\<close>, for the block type \<open>name\<close>; \<open>f\<close> is
  the switch on the nesting mode, given the member \<open>name\<close> of the initial value when there
  is an initial value.\<close>

definition initial_block ::
  "cty_value \<Rightarrow> string \<times> (cty_value option \<Rightarrow> 'g block_entry option) \<Rightarrow> (string \<times> 'g block_entry) option" where
  "initial_block initial nf =
     map_option (Pair (fst nf))
       (if initial = NilVal then snd nf None
        else do { nv \<leftarrow> GetAttr initial (fst nf); snd nf (Some nv) })"

primrec newObjectBuilder :: "'g SchemaBlockType \<Rightarrow> cty_value \<Rightarrow> 'g objectBuilder option"
  and nested_newObjectBuilder ::
    "'g SchemaNestedBlockType \<Rightarrow> cty_value option \<Rightarrow> 'g block_entry option" where
  "newObjectBuilder (SchemaBlockType attrs nbts) = (\<lambda>initial.
     do { avs \<leftarrow> those (map (initial_attr initial) attrs);
          es \<leftarrow> those (map (initial_block initial) (map (map_prod id nested_newObjectBuilder) nbts));
          Some (fold store_entry es
                 (objectBuilder (SchemaBlockType attrs nbts) (assign_all avs []) [] [] [])) })"
| "nested_newObjectBuilder (SchemaNestedBlockType nesting content maxItems minItems) = (\<lambda>nvo.
     (case nesting of
        NestingSingle \<Rightarrow>
          (case nvo of
             None \<Rightarrow> Some (SingleEntry None)
           | Some nv \<Rightarrow>
               (if IsNull nv then Some (SingleEntry None)
                else map_option (\<lambda>nb. SingleEntry (Some nb)) (newObjectBuilder content nv)))
      | NestingList \<Rightarrow>
          (case nvo of
             None \<Rightarrow> Some (ListEntry [])
           | Some nv \<Rightarrow>
               (if IsKnown nv \<and> \<not> IsNull nv then
                  do { n \<leftarrow> LengthInt nv;
                       it \<leftarrow> ElementIterator nv;
                       nbs \<leftarrow> those (map (\<lambda>kv. newObjectBuilder content (snd kv)) it);
                       Some (ListEntry nbs) }
                else Some NoEntry))
      | NestingSet \<Rightarrow>
          (case nvo of
             None \<Rightarrow> Some (ListEntry [])
           | Some nv \<Rightarrow>
               (if IsKnown nv \<and> \<not> IsNull nv then
                  do { n \<leftarrow> LengthInt nv;
                       it \<leftarrow> ElementIterator nv;
                       nbs \<leftarrow> those (map (\<lambda>kv. newObjectBuilder content (snd kv)) it);
                       Some (ListEntry nbs) }
                else Some NoEntry))
      | NestingMap \<Rightarrow>
          (case nvo of
             None \<Rightarrow> Some (MapEntry [])
           | Some nv \<Rightarrow>
               (if IsKnown nv \<and> \<not> IsNull nv then
                  do { n \<leftarrow> LengthInt nv;
                       it \<leftarrow> ElementIterator nv;
                       knbs \<leftarrow> those (map (\<lambda>kv. do { k \<leftarrow> AsString (fst kv);
                                                         nb \<leftarrow> newObjectBuilder content (snd kv);
                                                         Some (k, nb) }) it);
                       Some (MapEntry (assign_all knbs [])) }
                else Some NoEntry))
      | nestingInvalid \<Rightarrow> None))"

text \<open>\<open>objectBuilder.Attr\<close>; reading a key that a Go map lacks gives the zero value.\<close>

definition builder_Attr :: "'g objectBuilder \<Rightarrow> string \<Rightarrow> cty_value option" where
  "builder_Attr b name =
     (case map_of (Attributes (ob_schema b)) name of
        None \<Rightarrow> None
      | Some attrS \<Rightarrow>
          (case map_of (ob_attrs b) name of None \<Rightarrow> Some NilVal | Some val \<Rightarrow> Some val))"

text \<open>\<open>objectBuilder.BlockCount\<close>; a key that is not in a Go map reads as nil, of length 0.\<close>

definition builder_BlockCount :: "'g objectBuilder \<Rightarrow> string \<Rightarrow> nat option" where
  "builder_BlockCount b typeName =
     (case map_of (NestedBlockTypes (ob_schema b)) typeName of
        None \<Rightarrow> None
      | Some blockS \<Rightarrow>
          (case Nesting blockS of
             NestingSingle \<Rightarrow>
               (case map_of (ob_singleBlocks b) typeName of
                  Some (Some nb) \<Rightarrow> Some 1
                | _ \<Rightarrow> Some 0)
           | NestingList \<Rightarrow>
               (case map_of (ob_listBlocks b) typeName of None \<Rightarrow> Some 0 | Some nbs \<Rightarrow> Some (length nbs))
           | NestingSet \<Rightarrow>
               (case map_of (ob_listBlocks b) typeName of None \<Rightarrow> Some 0 | Some nbs \<Rightarrow> Some (length nbs))
           | NestingMap \<Rightarrow>
               (case map_of (ob_mapBlocks b) typeName of None \<Rightarrow> Some 0 | Some nbs \<Rightarrow> Some (length nbs))
           | nestingInvalid \<Rightarrow> None))"

text \<open>The three block loops of \<open>objectBuilder.ObjectVal\<close>, one round each. The nested
  builders' own \<open>ObjectVal\<close> results come in as arguments: \<open>None\<close> for a nested call that
  panicked, which a call on a nil builder does.\<close>

definition freeze_single ::
  "string \<times> cty_value option option \<Rightarrow> (string \<times> cty_value) list \<Rightarrow> (string \<times> cty_value) list option" where
  "freeze_single nr vals =
     (case snd nr of
        None \<Rightarrow> None
      | Some r \<Rightarrow> map_option (\<lambda>val. AList.update (fst nr) val vals) r)"

definition freeze_list ::
  "'g SchemaBlockType \<Rightarrow> string \<times> cty_value option list \<Rightarrow> (string \<times> cty_value) list
     \<Rightarrow> (string \<times> cty_value) list option" where
  "freeze_list schema nrs vals =
     (case map_of (NestedBlockTypes schema) (fst nrs) of
        None \<Rightarrow> None
      | Some blockS \<Rightarrow>
          (if snd nrs = [] then
             (case Nesting blockS of
                NestingList \<Rightarrow>
                  (if HasDynamicTypes (ImpliedCtyType (Content blockS))
                   then Some (AList.update (fst nrs) (TupleVal []) vals)
                   else Some (AList.update (fst nrs) (ListValEmpty (ImpliedCtyType (Content blockS))) vals))
              | NestingSet \<Rightarrow>
                  Some (AList.update (fst nrs) (SetValEmpty (ImpliedCtyType (Content blockS))) vals)
              | _ \<Rightarrow> Some vals)
           else
             do { subVals \<leftarrow> those (snd nrs);
                  (case Nesting blockS of
                     NestingList \<Rightarrow>
                       (if HasDynamicTypes (ImpliedCtyType (Content blockS))
                        then Some (AList.update (fst nrs) (TupleVal subVals) vals)
                        else map_option (\<lambda>val. AList.update (fst nrs) val vals) (ListVal subVals))
                   | NestingSet \<Rightarrow>
                       map_option (\<lambda>val. AList.update (fst nrs) val vals) (SetVal subVals)
                   | _ \<Rightarrow> Some vals) }))"

definition freeze_map ::
  "'g SchemaBlockType \<Rightarrow> string \<times> (string \<times> cty_value option) list \<Rightarrow> (string \<times> cty_value) list
     \<Rightarrow> (string \<times> cty_value) list option" where
  "freeze_map schema nrs vals =
     (case map_of (NestedBlockTypes schema) (fst nrs) of
        None \<Rightarrow> None
      | Some blockS \<Rightarrow>
          (if snd nrs = [] then
             (if HasDynamicTypes (ImpliedCtyType (Content blockS))
              then Some (AList.update (fst nrs) (ObjectVal []) vals)
              else Some (AList.update (fst nrs) (MapValEmpty (ImpliedCtyType (Content blockS))) vals))
           else
             do { subVals \<leftarrow> those (map (\<lambda>kr. map_option (Pair (fst kr)) (snd kr)) (snd nrs));
                  if HasDynamicTypes (ImpliedCtyType (Content blockS))
                  then Some (AList.update (fst nrs) (ObjectVal (assign_all subVals [])) vals)
                  else map_option (\<lambda>val. AList.update (fst nrs) val vals)
                         (MapVal (assign_all subVals [])) }))"

text \<open>\<open>objectBuilder.ObjectVal\<close>.\<close>

primrec builder_ObjectVal :: "'g objectBuilder \<Rightarrow> cty_value option" where
  "builder_ObjectVal (objectBuilder schema attrs singleBs listBs mapBs) =
     do { vals1 \<leftarrow> foldM freeze_single
                    (map (map_prod id (map_option builder_ObjectVal)) singleBs)
                    (assign_all attrs []);
          vals2 \<leftarrow> foldM (freeze_list schema)
                    (map (map_prod id (map builder_ObjectVal)) listBs) vals1;
          vals3 \<leftarrow> foldM (freeze_map schema)
                    (map (map_prod id (map (map_prod id builder_ObjectVal))) mapBs) vals2;
          Some (ObjectVal vals3) }"

text \<open>\<open>objectBuilderFull\<close> wraps a pointer to an \<open>objectBuilder\<close>, so the same type serves.
  \<open>NewObjectBuilderFull\<close>, \<open>NewBlockBuilder\<close> and the three \<open>Replace\<close> methods; a nil nested
  builder given to \<open>ReplaceBlockSingle\<close> is \<open>None\<close>.\<close>

definition NewObjectBuilderFull :: "'g SchemaBlockType \<Rightarrow> cty_value \<Rightarrow> 'g objectBuilder option" where
  "NewObjectBuilderFull schema initial = newObjectBuilder schema initial"

definition NewBlockBuilder :: "'g objectBuilder \<Rightarrow> string \<Rightarrow> 'g objectBuilder option" where
  "NewBlockBuilder b typeName =
     (case map_of (NestedBlockTypes (ob_schema b)) typeName of
        None \<Rightarrow> None
      | Some blockS \<Rightarrow> newObjectBuilder (Content blockS) NilVal)"

definition ReplaceBlockSingle ::
  "'g objectBuilder \<Rightarrow> string \<Rightarrow> 'g objectBuilder option \<Rightarrow> 'g objectBuilder option" where
  "ReplaceBlockSingle b typeName nb =
     (case map_of (NestedBlockTypes (ob_schema b)) typeName of
        None \<Rightarrow> None
      | Some blockS \<Rightarrow>
          (if Nesting blockS \<noteq> NestingSingle then None
           else Some (store_entry (typeName, SingleEntry nb) b)))"

definition ReplaceBlocksList ::
  "'g objectBuilder \<Rightarrow> string \<Rightarrow> 'g objectBuilder list \<Rightarrow> 'g objectBuilder option" where
  "ReplaceBlocksList b typeName nbs =
     (case map_of (NestedBlockTypes (ob_schema b)) typeName of
        None \<Rightarrow> None
      | Some blockS \<Rightarrow>
          (if Nesting blockS \<noteq> NestingList \<and> Nesting blockS \<noteq> NestingSet then None
           else if length nbs = 0 then Some (store_entry (typeName, ListEntry []) b)
           else Some (store_entry (typeName, ListEntry nbs) b)))"

definition ReplaceBlocksMap ::
  "'g objectBuilder \<Rightarrow> string \<Rightarrow> (string \<times> 'g objectBuilder) list \<Rightarrow> 'g objectBuilder option" where
  "ReplaceBlocksMap b typeName nbs =
     (case map_of (NestedBlockTypes (ob_schema b)) typeName of
        None \<Rightarrow> None
      | Some blockS \<Rightarrow>
          (if Nesting blockS \<noteq> NestingMap then None
           else if length nbs = 0 then Some (store_entry (typeName, ListEntry []) b)
           else Some (store_entry (typeName, MapEntry (assign_all nbs [])) b)))"


section \<open>Plan builder\<close>

datatype Action = actionInvalid | Read | Create | Update | Delete

text \<open>\<open>planBuilder\<close>, with the fields \<open>action\<close>, \<open>schema\<close>, \<open>prior\<close>, \<open>config\<close> and \<open>planned\<close>;
  a nil pointer or nil interface is \<open>None\<close>.\<close>

record 'g planBuilder =
  pb_action :: Action
  pb_schema :: "'g SchemaBlockType option"
  pb_prior :: "'g objectReaderVal option"
  pb_config :: "'g objectReaderVal option"
  pb_planned :: "'g objectBuilder option"

definition NewObjectBuilder :: "'g SchemaBlockType \<Rightarrow> cty_value \<Rightarrow> 'g objectBuilder option" where
  "NewObjectBuilder schema initial = newObjectBuilder schema initial"

text \<open>The three guarded constructions at the head of \<open>newPlanBuilder\<close>: \<open>Some None\<close> is the
  nil that is left when the guard fails, \<open>None\<close> a panic of the constructor.\<close>

definition guarded :: "cty_value \<Rightarrow> (cty_value \<Rightarrow> 'a option) \<Rightarrow> 'a option option" where
  "guarded val mk =
     (if val \<noteq> NilVal \<and> \<not> IsNull val then map_option Some (mk val) else Some None)"

definition newPlanBuilder ::
  "'g SchemaBlockType \<Rightarrow> cty_value \<Rightarrow> cty_value \<Rightarrow> cty_value \<Rightarrow> 'g planBuilder option" where
  "newPlanBuilder schema prior config proposed =
     do { priorReader \<leftarrow> guarded prior (NewObjectReader schema);
          configReader \<leftarrow> guarded config (NewObjectReader schema);
          plannedBuilder \<leftarrow> guarded proposed (NewObjectBuilder schema);
          Some \<lparr>pb_action = (if IsNull proposed then Delete
                              else if IsNull prior then Create
                              else Update),
                pb_schema = Some schema,
                pb_prior = priorReader,
                pb_config = configReader,
                pb_planned = plannedBuilder\<rparr> }"

definition NewPlanBuilder ::
  "'g SchemaBlockType \<Rightarrow> cty_value \<Rightarrow> cty_value \<Rightarrow> cty_value \<Rightarrow> 'g planBuilder option" where
  "NewPlanBuilder schema prior config planned = newPlanBuilder schema prior config planned"

definition NewPlanReader ::
  "'g SchemaBlockType \<Rightarrow> cty_value \<Rightarrow> cty_value \<Rightarrow> 'g planBuilder option" where
  "NewPlanReader schema prior planned = newPlanBuilder schema prior NilVal planned"

text \<open>\<open>planBuilder.subBuilder\<close>; it leaves the \<open>schema\<close> field unset.\<close>

definition subBuilder ::
  "'g SchemaNestedBlockType \<Rightarrow> 'g objectReaderVal option \<Rightarrow> 'g objectReaderVal option
     \<Rightarrow> 'g objectBuilder option \<Rightarrow> 'g planBuilder" where
  "subBuilder schema prior config planned =
     \<lparr>pb_action = (if planned = None then Delete
                    else if prior = None then Create
                    else Update),
      pb_schema = None,
      pb_prior = prior,
      pb_config = config,
      pb_planned = planned\<rparr>"

text \<open>\<open>planBuilder.Attr\<close>: \<open>requireWritable\<close>, then the planned builder's \<open>Attr\<close>.\<close>

definition plan_Attr :: "'g planBuilder \<Rightarrow> string \<Rightarrow> cty_value option" where
  "plan_Attr b name =
     (case pb_planned b of
        None \<Rightarrow> None
      | Some planned \<Rightarrow> builder_Attr planned name)"

text \<open>\<open>planBuilder.AttrChange\<close>; reading \<open>Attributes\<close> through a nil schema panics.\<close>

definition AttrChange :: "'g planBuilder \<Rightarrow> string \<Rightarrow> (cty_value \<times> cty_value) option" where
  "AttrChange b name =
     do { schema \<leftarrow> pb_schema b;
          attrS \<leftarrow> map_of (Attributes schema) name;
          prior \<leftarrow> (case pb_prior b of
                      Some r \<Rightarrow> reader_Attr r name
                    | None \<Rightarrow> Some (NullVal (Type attrS)));
          planned \<leftarrow> (if pb_planned b \<noteq> None then plan_Attr b name
                      else Some (NullVal (Type attrS)));
          Some (prior, planned) }"

text \<open>\<open>planBuilder.AttrHasChange\<close>.\<close>

definition AttrHasChange :: "'g planBuilder \<Rightarrow> string \<Rightarrow> bool option" where
  "AttrHasChange b name =
     do { pp \<leftarrow> AttrChange b name;
          if \<not> IsKnown (Equals (snd pp) (fst pp)) then Some True
          else True_of (Equals (snd pp) (fst pp)) }"

text \<open>\<open>planBuilder.CanProvideAttrDefault\<close>.\<close>

definition CanProvideAttrDefault :: "'g planBuilder \<Rightarrow> string \<Rightarrow> bool option" where
  "CanProvideAttrDefault b name =
     do { schema \<leftarrow> pb_schema b;
          attrS \<leftarrow> map_of (Attributes schema) name;
          if pb_planned b = None then Some False
          else if \<not> Computed attrS then Some False
          else do { val \<leftarrow> plan_Attr b name;
                    if IsNull val then Some True else Some False } }"

text \<open>\<open>planBuilder.ConfigReader\<close> panics when there is no configuration.\<close>

definition ConfigReader :: "'g planBuilder \<Rightarrow> 'g objectReaderVal option" where
  "ConfigReader b = pb_config b"


section \<open>Validation\<close>

text \<open>\<open>Diagnostics.HasErrors\<close> and \<open>Diagnostics.UnderPath\<close>; \<open>Diagnostics.Append\<close> is list
  append.\<close>

definition HasErrors :: "Diagnostic list \<Rightarrow> bool" where
  "HasErrors diags = list_ex (\<lambda>diag. Severity diag = Error) diags"

definition UnderPath :: "PathStep list \<Rightarrow> Diagnostic list \<Rightarrow> Diagnostic list" where
  "UnderPath base diags = map (\<lambda>diag. diag\<lparr>Path := base @ Path diag\<rparr>) diags"

text \<open>\<open>dynfunc.WrapSimpleFunction\<close> applied to the \<open>ValidateFn\<close> field and one value: the
  error of the wrapper (\<open>Inl\<close>), or what calling the wrapped function returns.\<close>

definition WrapSimpleFunction :: "ValidateFn \<Rightarrow> cty_value \<Rightarrow> string + Diagnostic list" where
  "WrapSimpleFunction f arg =
     (case f of
        ValidateFn_nil \<Rightarrow> Inr []
      | ValidateFn_rejected err \<Rightarrow> Inl err
      | ValidateFn_func accepts call \<Rightarrow>
          (case accepts arg of
             Some err \<Rightarrow>
               Inr [\<lparr>Severity = Error, Summary = ''Unsuitable argument value'',
                      Detail = ''This value cannot be used: '' @ err @ ''.'', Path = []\<rparr>]
           | None \<Rightarrow> Inr (call arg)))"

text \<open>\<open>SchemaAttribute.Validate\<close>. The type conversion \<open>convert.Convert\<close> of the value library
  is the parameter \<open>conv\<close>: \<open>Inl\<close> is its error, already formatted.\<close>

definition attr_Validate ::
  "(cty_value \<Rightarrow> cty_type \<Rightarrow> string + cty_value) \<Rightarrow> 'g SchemaAttribute \<Rightarrow> cty_value \<Rightarrow> Diagnostic list" where
  "attr_Validate conv a val =
     (let diags1 =
            (if Required a \<and> IsNull val
             then [\<lparr>Severity = Error, Summary = ''Missing required argument'',
                     Detail = ''This argument is required.'', Path = []\<rparr>]
             else []);
          diags2 =
            (case conv val (Type a) of
               Inl err \<Rightarrow>
                 diags1 @ [\<lparr>Severity = Error, Summary = ''Invalid argument value'',
                             Detail = ''Incorrect value type: '' @ err @ ''.'', Path = []\<rparr>]
             | Inr convVal \<Rightarrow> diags1)
      in if HasErrors diags2 then diags2
         else (case conv val (Type a) of
                 Inl err \<Rightarrow> diags2
               | Inr convVal \<Rightarrow>
                   (if IsNull convVal then diags2
                    else if \<not> IsKnown convVal then diags2
                    else (case WrapSimpleFunction (ValidateFn a) convVal of
                            Inl err \<Rightarrow>
                              diags2 @
                              [\<lparr>Severity = Error, Summary = ''Invalid provider schema'',
                                 Detail = ''Invalid ValidateFn: '' @ err @ ''.'' @ [CHR 0x0A] @
                                   ''This is a bug in the provider that should be reported in its own issue tracker.'',
                                 Path = []\<rparr>]
                          | Inr moreDiags \<Rightarrow> diags2 @ moreDiags))))"

text \<open>One round of the attribute loop and of the block loop of \<open>SchemaBlockType.Validate\<close>.\<close>

definition validate_attr ::
  "(cty_value \<Rightarrow> cty_type \<Rightarrow> string + cty_value) \<Rightarrow> cty_value \<Rightarrow> string \<times> 'g SchemaAttribute
     \<Rightarrow> Diagnostic list option" where
  "validate_attr conv val na =
     do { av \<leftarrow> GetAttr val (fst na);
          Some (UnderPath [GetAttrStep (fst na)] (attr_Validate conv (snd na) av)) }"

definition validate_block ::
  "cty_value \<Rightarrow> string \<times> (string \<Rightarrow> cty_value \<Rightarrow> Diagnostic list option) \<Rightarrow> Diagnostic list option" where
  "validate_block val nf = do { av \<leftarrow> GetAttr val (fst nf); snd nf (fst nf) av }"

text \<open>The element loops of the block loop: every element is validated by \<open>f\<close>, which is
  \<open>blockS.Content.Validate\<close>, and its diagnostics are put under the path that \<open>path_of\<close>
  gives for the element's key.\<close>

definition validate_elems ::
  "(cty_value \<Rightarrow> PathStep list) \<Rightarrow> (cty_value \<Rightarrow> Diagnostic list option) \<Rightarrow> cty_value
     \<Rightarrow> Diagnostic list option" where
  "validate_elems path_of f av =
     do { it \<leftarrow> ElementIterator av;
          ds \<leftarrow> those (map (\<lambda>kv. map_option (UnderPath (path_of (fst kv))) (f (snd kv))) it);
          Some (concat ds) }"

text \<open>The text of \<open>%q\<close> for a name without characters to escape, and of \<open>%#v\<close> for a nesting
  mode.\<close>

definition quoted :: "string \<Rightarrow> string" where
  "quoted name = [CHR 0x22] @ name @ [CHR 0x22]"

fun NestingMode_GoString :: "NestingMode \<Rightarrow> string" where
  "NestingMode_GoString nestingInvalid = ''0''"
| "NestingMode_GoString NestingSingle = ''1''"
| "NestingMode_GoString NestingList = ''2''"
| "NestingMode_GoString NestingMap = ''3''"
| "NestingMode_GoString NestingSet = ''4''"

text \<open>\<open>SchemaBlockType.Validate\<close>; the second function is the switch on the nesting mode
  in its block loop, for the block type \<open>name\<close> and its value \<open>av\<close>.\<close>

primrec Validate ::
    "(cty_value \<Rightarrow> cty_type \<Rightarrow> string + cty_value) \<Rightarrow> 'g SchemaBlockType \<Rightarrow> cty_value
       \<Rightarrow> Diagnostic list option"
  and nested_Validate ::
    "(cty_value \<Rightarrow> cty_type \<Rightarrow> string + cty_value) \<Rightarrow> 'g SchemaNestedBlockType \<Rightarrow> string \<Rightarrow> cty_value
       \<Rightarrow> Diagnostic list option" where
  "Validate conv (SchemaBlockType attrs nbts) = (\<lambda>val.
     if \<not> IsObjectType (Value_Type val)
     then Some [\<lparr>Severity = Error, Summary = ''Invalid block object'',
                  Detail = ''An object value is required to represent this block.'', Path = []\<rparr>]
     else do { ads \<leftarrow> those (map (validate_attr conv val) attrs);
               bds \<leftarrow> those (map (validate_block val) (map (map_prod id (nested_Validate conv)) nbts));
               Some (concat ads @ concat bds) })"
| "nested_Validate conv (SchemaNestedBlockType nesting content maxItems minItems) = (\<lambda>name av.
     (case nesting of
        NestingSingle \<Rightarrow>
          (if \<not> IsNull av
           then map_option (UnderPath [GetAttrStep name]) (Validate conv content av)
           else Some [])
      | NestingList \<Rightarrow>
          validate_elems (\<lambda>ek. [GetAttrStep name, IndexStep ek]) (Validate conv content) av
      | NestingMap \<Rightarrow>
          validate_elems (\<lambda>ek. [GetAttrStep name, IndexStep ek]) (Validate conv content) av
      | NestingSet \<Rightarrow>
          validate_elems (\<lambda>ek. [GetAttrStep name]) (Validate conv content) av
      | nestingInvalid \<Rightarrow>
          Some [\<lparr>Severity = Error, Summary = ''Unsupported nested block mode'',
                  Detail = ''Block type '' @ quoted name @ '' has an unsupported nested block mode '' @
                    NestingMode_GoString nesting @
                    ''. This is a bug in the provider; please report it in the provider's own issue tracker.'',
                  Path = [GetAttrStep name]\<rparr>]))"


section \<open>Reconciliation driver\<close>

text \<open>
  Modelled from the spec: \<open>cty.UnknownAsNull\<close> belongs to the value library, whose sources are
  not under \<open>src/\<close>. The spec says that the unknown placeholders inside a value are converted
  to null. The function rebuilds every non-empty collection from its converted elements with
  the library's constructors and turns an unknown value into the null of the same type.
\<close>

primrec UnknownAsNull :: "cty_value \<Rightarrow> cty_value option" where
  "UnknownAsNull NilVal = Some NilVal"
| "UnknownAsNull (NullVal t) = Some (NullVal t)"
| "UnknownAsNull (UnknownVal t) = Some (NullVal t)"
| "UnknownAsNull (BoolVal b) = Some (BoolVal b)"
| "UnknownAsNull (NumberIntVal n) = Some (NumberIntVal n)"
| "UnknownAsNull (StringVal s) = Some (StringVal s)"
| "UnknownAsNull (ListV t vs) =
     (if vs = [] then Some (ListV t vs)
      else do { vals \<leftarrow> those (map UnknownAsNull vs); ListVal vals })"
| "UnknownAsNull (SetV t vs) =
     (if vs = [] then Some (SetV t vs)
      else do { vals \<leftarrow> those (map UnknownAsNull vs); SetVal vals })"
| "UnknownAsNull (MapV t kvs) =
     (if kvs = [] then Some (MapV t kvs)
      else do { vals \<leftarrow> those (map (\<lambda>kr. map_option (Pair (fst kr)) (snd kr))
                                   (map (map_prod id UnknownAsNull) kvs));
                MapVal (assign_all vals []) })"
| "UnknownAsNull (TupleV vs) =
     (if vs = [] then Some (TupleV vs)
      else map_option TupleVal (those (map UnknownAsNull vs)))"
| "UnknownAsNull (ObjectV kvs) =
     (if kvs = [] then Some (ObjectV kvs)
      else do { vals \<leftarrow> those (map (\<lambda>kr. map_option (Pair (fst kr)) (snd kr))
                                   (map (map_prod id UnknownAsNull) kvs));
                Some (ObjectVal (assign_all vals [])) })"

text \<open>\<open>Value.IsWhollyKnown\<close>: the value is known, and so is every value nested inside it.\<close>

fun IsWhollyKnown :: "cty_value \<Rightarrow> bool" where
  "IsWhollyKnown (UnknownVal t) = False"
| "IsWhollyKnown (ListV t vs) = list_all IsWhollyKnown vs"
| "IsWhollyKnown (SetV t vs) = list_all IsWhollyKnown vs"
| "IsWhollyKnown (TupleV vs) = list_all IsWhollyKnown vs"
| "IsWhollyKnown (MapV t kvs) = list_all (\<lambda>kv. IsWhollyKnown (snd kv)) kvs"
| "IsWhollyKnown (ObjectV kvs) = list_all (\<lambda>kv. IsWhollyKnown (snd kv)) kvs"
| "IsWhollyKnown v = True"

text \<open>An operation function of a resource type (\<open>CreateFn\<close>, \<open>UpdateFn\<close>, \<open>DeleteFn\<close>) as
  \<open>dynfunc.WrapFunctionWithReturnValueCty\<close> sees it: nil; a value it rejects before it looks
  at an argument (not a function, the wrong results, a number of parameters that is not the
  number of arguments of the operation), with the reason; or a function, given by
  \<^item> the error for a context that cannot be assigned to its first parameter, \<open>None\<close> for a
    context that can;
  \<^item> the error for a client that cannot be assigned to its second parameter, \<open>None\<close> for a
    client that can;
  \<^item> the errors of converting the values passed to the types of its remaining parameters,
    one for each value that cannot be converted (a parameter of type \<open>cty.Value\<close> takes every
    value);
  \<^item> the call: for the context, the client and the values, \<open>None\<close> when the call panics,
    and otherwise the value returned, or the error of converting what was returned to the
    wanted type, and the diagnostics returned.

  The types \<open>'x\<close> and \<open>'c\<close> are those of the contexts and of the client objects.\<close>

datatype ('x, 'c) OperationFn =
    Fn_nil
  | Fn_rejected string
  | Fn_func "'x \<Rightarrow> string option" "'c \<Rightarrow> string option" "cty_value list \<Rightarrow> string list"
      "'x \<Rightarrow> 'c \<Rightarrow> cty_value list \<Rightarrow> ((string + cty_value) \<times> Diagnostic list) option"

text \<open>\<open>dynfunc.WrapFunctionWithReturnValueCty\<close> applied to an operation function, the wanted
  type, the context, the client and the values, and then the call of the function it
  returns: the error of the wrapper (\<open>Inl\<close>), or the value and the diagnostics; \<open>None\<close> is a
  panic. The context and the client are \<open>None\<close> when they are nil: for a function that is
  not nil and not rejected, \<open>prepareDynamicCallArgs\<close> goes through the arguments in their
  order and panics at a nil one, when it asks for its type
  (\<open>reflect.ValueOf(rawArg).Type()\<close>).\<close>

definition WrapFunctionWithReturnValueCty ::
  "('x, 'c) OperationFn \<Rightarrow> cty_type \<Rightarrow> 'x option \<Rightarrow> 'c option \<Rightarrow> cty_value list
     \<Rightarrow> (string + (cty_value \<times> Diagnostic list)) option" where
  "WrapFunctionWithReturnValueCty f wantTy ctx client args =
     (case f of
        Fn_nil \<Rightarrow> Some (Inr (NullVal wantTy, []))
      | Fn_rejected err \<Rightarrow> Some (Inl err)
      | Fn_func takesCtx takesClient accepts call \<Rightarrow>
          (case ctx of
             None \<Rightarrow> None
           | Some x \<Rightarrow>
          (case takesCtx x of
             Some err \<Rightarrow> Some (Inl err)
           | None \<Rightarrow>
          (case client of
             None \<Rightarrow> None
           | Some c \<Rightarrow>
          (case takesClient c of
             Some err \<Rightarrow> Some (Inl err)
           | None \<Rightarrow>
               (if accepts args \<noteq> []
                then Some (Inr (NullVal wantTy,
                       map (\<lambda>err. \<lparr>Severity = Error, Summary = ''Unsuitable argument value'',
                                     Detail = ''This value cannot be used: '' @ err @ ''.'', Path = []\<rparr>)
                         (accepts args)))
                else (case call x c args of
                        None \<Rightarrow> None
                      | Some out \<Rightarrow>
                          (case fst out of
                             Inr retVal \<Rightarrow> Some (Inr (retVal, snd out))
                           | Inl err \<Rightarrow>
                               Some (Inr (NullVal wantTy,
                                 (if \<not> HasErrors (snd out)
                                  then snd out @
                                       [\<lparr>Severity = Error, Summary = ''Invalid result from provider'',
                                          Detail = ''The provider produced an invalid result: '' @ err @ ''.'' @
                                            [CHR 0x0A, CHR 0x0A] @
                                            ''This is a bug in the provider; please report it in the provider's issue tracker.'',
                                          Path = []\<rparr>]
                                  else snd out)))))))))))"

text \<open>\<open>managedResourceType\<close>.\<close>

record ('g, 'x, 'c) managedResourceType =
  configSchema :: "'g SchemaBlockType"
  schemaVersion :: int
  createFn :: "('x, 'c) OperationFn"
  readFn :: "('x, 'c) OperationFn"
  updateFn :: "('x, 'c) OperationFn"
  deleteFn :: "('x, 'c) OperationFn"

text \<open>The switch of \<open>applyChange\<close> that chooses the operation: which function is wrapped,
  with which values, and the name used in the message when the wrapper rejects it. The
  \<open>planned\<close> argument is the one already passed through \<open>UnknownAsNull\<close>.\<close>

datatype Operation = OpCreate | OpUpdate | OpDelete

definition apply_dispatch :: "cty_value \<Rightarrow> cty_value \<Rightarrow> Operation \<times> cty_value list" where
  "apply_dispatch prior planned =
     (if IsNull prior then (OpCreate, [planned])
      else if IsNull planned then (OpDelete, [prior])
      else (OpUpdate, [prior, planned]))"

fun operation_fn :: "('g, 'x, 'c) managedResourceType \<Rightarrow> Operation \<Rightarrow> ('x, 'c) OperationFn" where
  "operation_fn rt OpCreate = createFn rt"
| "operation_fn rt OpUpdate = updateFn rt"
| "operation_fn rt OpDelete = deleteFn rt"

fun operation_name :: "Operation \<Rightarrow> string" where
  "operation_name OpCreate = ''CreateFn''"
| "operation_name OpUpdate = ''UpdateFn''"
| "operation_name OpDelete = ''DeleteFn''"

text \<open>\<open>managedResourceType.applyChange\<close>, with the context, the client and the two values it
  is given; \<open>None\<close> is a panic.\<close>

definition applyChange ::
  "('g, 'x, 'c) managedResourceType \<Rightarrow> 'x option \<Rightarrow> 'c option \<Rightarrow> cty_value \<Rightarrow> cty_value
     \<Rightarrow> (cty_value \<times> Diagnostic list) option" where
  "applyChange rt ctx client prior planned0 =
     do { planned \<leftarrow> UnknownAsNull planned0;
          w \<leftarrow> WrapFunctionWithReturnValueCty (operation_fn rt (fst (apply_dispatch prior planned)))
                 (ImpliedCtyType (configSchema rt)) ctx client (snd (apply_dispatch prior planned));
          (case w of
             Inl err \<Rightarrow>
               Some (NullVal (ImpliedCtyType (configSchema rt)),
                     [\<lparr>Severity = Error, Summary = ''Invalid provider implementation'',
                        Detail = ''Invalid '' @ operation_name (fst (apply_dispatch prior planned)) @ '': '' @
                          err @ ''.'' @ [CHR 0x0A] @
                          ''This is a bug in the provider that should be reported in its own issue tracker.'',
                        Path = []\<rparr>])
           | Inr res \<Rightarrow>
               Some (if IsNull (fst res) then NullVal (ImpliedCtyType (configSchema rt))
                     else if \<not> IsKnown (fst res) then UnknownVal (ImpliedCtyType (configSchema rt))
                     else fst res,
                     snd res)) }"

text \<open>Two operation functions that a call with the context \<open>ctx\<close>, the client \<open>client\<close> and
  the values \<open>args\<close> cannot tell apart: both nil, both rejected for the same reason, or both
  functions that treat this context, this client and these values alike.\<close>

definition agree_at ::
  "'x option \<Rightarrow> 'c option \<Rightarrow> cty_value list \<Rightarrow> ('x, 'c) OperationFn \<Rightarrow> ('x, 'c) OperationFn \<Rightarrow> bool" where
  "agree_at ctx client args f g =
     (case f of
        Fn_nil \<Rightarrow> (case g of Fn_nil \<Rightarrow> True | _ \<Rightarrow> False)
      | Fn_rejected err \<Rightarrow> (case g of Fn_rejected err' \<Rightarrow> err = err' | _ \<Rightarrow> False)
      | Fn_func takesCtx takesClient accepts call \<Rightarrow>
          (case g of
             Fn_func takesCtx' takesClient' accepts' call' \<Rightarrow>
               (case ctx of
                  None \<Rightarrow> True
                | Some x \<Rightarrow>
                    takesCtx x = takesCtx' x \<and>
                    (case client of
                       None \<Rightarrow> True
                     | Some c \<Rightarrow>
                         takesClient c = takesClient' c \<and> accepts args = accepts' args \<and>
                         call x c args = call' x c args))
           | _ \<Rightarrow> False))"

text \<open>\<open>managedResourceType.planChange\<close>.\<close>

definition planChange ::
  "('g \<Rightarrow> cty_type \<Rightarrow> cty_value option) \<Rightarrow> ('g, 'x, 'c) managedResourceType \<Rightarrow> cty_value \<Rightarrow> cty_value \<Rightarrow> cty_value
     \<Rightarrow> (cty_value \<times> Diagnostic list) option" where
  "planChange toCty rt prior config proposed =
     map_option (\<lambda>planned. (planned, [])) (ApplyDefaults toCty (configSchema rt) proposed)"


text \<open>Known, non-null values that \<open>LengthInt\<close> and \<open>ElementIterator\<close> accept.\<close>

fun IsCollection :: "cty_value \<Rightarrow> bool" where
  "IsCollection (ListV t vs) = True"
| "IsCollection (SetV t vs) = True"
| "IsCollection (MapV t kvs) = True"
| "IsCollection (TupleV vs) = True"
| "IsCollection (ObjectV kvs) = True"
| "IsCollection v = False"

text \<open>The names of a schema. The keys of a Go map are not repeated, and a schema that is valid
  does not give one name to both an attribute and a block type; this holds in every nested
  block type's body as well.\<close>

primrec wf_schema :: "'g SchemaBlockType \<Rightarrow> bool"
  and wf_nested :: "'g SchemaNestedBlockType \<Rightarrow> bool" where
  "wf_schema (SchemaBlockType attrs nbts) =
     (distinct (map fst attrs @ map fst nbts) \<and> list_all snd (map (map_prod id wf_nested) nbts))"
| "wf_nested (SchemaNestedBlockType nesting content maxItems minItems) = wf_schema content"

section \<open>Example schemas\<close>

text \<open>Small schemas on which the properties below are run: one optional attribute \<open>a\<close> of
  string type, one optional attribute \<open>l\<close> holding a list of numbers, and one block type \<open>m\<close>
  of map nesting with an empty body.\<close>

definition ex_attr :: "cty_type \<Rightarrow> bool \<Rightarrow> unit SchemaAttribute" where
  "ex_attr t computed =
     \<lparr>Type = t, Required = False, Optional = True, Computed = computed, Sensitive = False,
      Description = [], ValidateFn = ValidateFn_nil, Default = None\<rparr>"

definition ex_schema :: "unit SchemaBlockType" where
  "ex_schema = SchemaBlockType [(''a'', ex_attr cty_String True)] []"

definition ex_list_schema :: "unit SchemaBlockType" where
  "ex_list_schema = SchemaBlockType [(''l'', ex_attr (cty_List cty_Number) True)] []"

definition ex_map_schema :: "unit SchemaBlockType" where
  "ex_map_schema =
     SchemaBlockType [] [(''m'', SchemaNestedBlockType NestingMap (SchemaBlockType [] []) 0 0)]"


text \<open>A schema for default application: \<open>a\<close> is computed, \<open>d\<close> has a static default, \<open>n\<close> has
  neither; and a conversion of the Go default to a value of string type.\<close>

definition ex_defaults_schema :: "unit SchemaBlockType" where
  "ex_defaults_schema =
     SchemaBlockType
       [(''a'', ex_attr cty_String True),
        (''d'', (ex_attr cty_String False)\<lparr>Default := Some ()\<rparr>),
        (''n'', ex_attr cty_String False)] []"

definition ex_toCty :: "unit \<Rightarrow> cty_type \<Rightarrow> cty_value option" where
  "ex_toCty d t = (if t = cty_String then Some (StringVal ''dflt'') else None)"

definition ex_reader :: "unit objectReaderVal" where
  "ex_reader =
     \<lparr>r_schema = ex_map_schema,
      r_v = ObjectV [(''m'', MapV (cty_Object []) [(''k'', ObjectV [])])]\<rparr>"

text \<open>Validation examples: a block body with the required boolean attribute \<open>expect\<close>, as a
  block type of set nesting and of list nesting; the conversion that accepts every value as it
  is; and the diagnostic for the missing attribute, as the validation of the body reports it.\<close>

definition ex_conv :: "cty_value \<Rightarrow> cty_type \<Rightarrow> string + cty_value" where
  "ex_conv val t = Inr val"

definition ex_check_content :: "unit SchemaBlockType" where
  "ex_check_content =
     SchemaBlockType [(''expect'', (ex_attr cty_Bool False)\<lparr>Required := True, Optional := False\<rparr>)] []"

definition ex_set_block :: "unit SchemaNestedBlockType" where
  "ex_set_block = SchemaNestedBlockType NestingSet ex_check_content 0 0"

definition ex_list_block :: "unit SchemaNestedBlockType" where
  "ex_list_block = SchemaNestedBlockType NestingList ex_check_content 0 0"

definition ex_missing :: Diagnostic where
  "ex_missing =
     \<lparr>Severity = Error, Summary = ''Missing required argument'',
      Detail = ''This argument is required.'', Path = [GetAttrStep ''expect'']\<rparr>"

definition ex_check_elem :: cty_value where
  "ex_check_elem = ObjectV [(''expect'', NullVal cty_Bool)]"

text \<open>A schema with nested block types: the computed attribute \<open>a\<close>, the block type \<open>m\<close> of
  map nesting whose body is the schema for default application above, and the block type \<open>s\<close>
  of set nesting whose body has the computed attribute \<open>a\<close>; and a value of it.\<close>

definition ex_nested_schema :: "unit SchemaBlockType" where
  "ex_nested_schema =
     SchemaBlockType
       [(''a'', ex_attr cty_String True)]
       [(''m'', SchemaNestedBlockType NestingMap ex_defaults_schema 0 0),
        (''s'', SchemaNestedBlockType NestingSet ex_schema 0 0)]"

definition ex_nested_value :: cty_value where
  "ex_nested_value =
     ObjectV
       [(''a'', NullVal cty_String),
        (''m'', MapV (ImpliedCtyType ex_defaults_schema)
                  [(''k'', ObjectV [(''a'', NullVal cty_String), (''d'', NullVal cty_String),
                                    (''n'', StringVal ''x'')])]),
        (''s'', SetV (ImpliedCtyType ex_schema)
                  [ObjectV [(''a'', NullVal cty_String)], ObjectV [(''a'', StringVal ''y'')]])]"

text \<open>A schema with the block types \<open>s\<close> of set nesting and \<open>l\<close> of list nesting, both with
  the body that requires \<open>expect\<close>; and a value of it with one element in each, in which
  \<open>expect\<close> is missing.\<close>

definition ex_blocks_schema :: "unit SchemaBlockType" where
  "ex_blocks_schema = SchemaBlockType [] [(''s'', ex_set_block), (''l'', ex_list_block)]"

definition ex_blocks_value :: cty_value where
  "ex_blocks_value =
     ObjectV [(''s'', SetV (cty_Object [(''expect'', cty_Bool)]) [ex_check_elem]),
              (''l'', ListV (cty_Object [(''expect'', cty_Bool)]) [ex_check_elem])]"

text \<open>A schema with the block type \<open>s\<close> of single nesting, whose body declares the block type
  \<open>t\<close> of list nesting; and the value of it in which the block \<open>s\<close> is absent.\<close>

definition ex_single_schema :: "unit SchemaBlockType" where
  "ex_single_schema =
     SchemaBlockType []
       [(''s'', SchemaNestedBlockType NestingSingle
                  (SchemaBlockType [] [(''t'', SchemaNestedBlockType NestingList (SchemaBlockType [] []) 0 0)])
                  0 0)]"

definition ex_single_value :: cty_value where
  "ex_single_value = ObjectV [(''s'', NullVal (cty_Object [(''t'', cty_List (cty_Object []))]))]"

text \<open>Operation functions with parameters of type \<open>cty.Value\<close>, which take every context,
  every client and every value: one returns the first value it is given, the other does so only when that
  value holds no unknown, and tells otherwise. Two resource types for the schema with the
  attribute \<open>a\<close>: both update with the first function, one creates with the first and one
  with the second.\<close>

definition ex_first_fn :: "(unit, unit) OperationFn" where
  "ex_first_fn =
     Fn_func (\<lambda>x. None) (\<lambda>c. None) (\<lambda>args. [])
       (\<lambda>x c args. Some (Inr (case args of [] \<Rightarrow> NilVal | v # vs \<Rightarrow> v), []))"

definition ex_probe_fn :: "(unit, unit) OperationFn" where
  "ex_probe_fn =
     Fn_func (\<lambda>x. None) (\<lambda>c. None) (\<lambda>args. [])
       (\<lambda>x c args. Some (Inr (case args of
                                   [] \<Rightarrow> NilVal
                                 | v # vs \<Rightarrow> if IsWhollyKnown v then v else StringVal ''unknown''), []))"

definition ex_first_rt :: "(unit, unit, unit) managedResourceType" where
  "ex_first_rt =
     \<lparr>configSchema = ex_schema, schemaVersion = 0, createFn = ex_first_fn, readFn = Fn_nil,
      updateFn = ex_first_fn, deleteFn = Fn_nil\<rparr>"

definition ex_probe_rt :: "(unit, unit, unit) managedResourceType" where
  "ex_probe_rt =
     \<lparr>configSchema = ex_schema, schemaVersion = 0, createFn = ex_probe_fn, readFn = Fn_nil,
      updateFn = ex_first_fn, deleteFn = Fn_nil\<rparr>"

section \<open>Properties\<close>

lemmas ex_defs = ex_attr_def ex_schema_def ex_list_schema_def ex_map_schema_def
  ex_defaults_schema_def ex_toCty_def ex_reader_def ex_conv_def ex_check_content_def
  ex_set_block_def ex_list_block_def ex_missing_def ex_check_elem_def
  ex_blocks_schema_def ex_blocks_value_def ex_single_schema_def ex_single_value_def
  ex_first_fn_def ex_probe_fn_def ex_first_rt_def ex_probe_rt_def
  ex_nested_schema_def ex_nested_value_def

lemmas pb_defs = newPlanBuilder_def guarded_def NewObjectReader_def NewObjectBuilder_def
  initial_attr_def initial_block_def assign_all_def store_entry_def
  AttrHasChange_def AttrChange_def reader_Attr_def plan_Attr_def builder_Attr_def Equals_early_def
  CanProvideAttrDefault_def

subsection \<open>Lists of optional results and assignments to maps\<close>

lemma those_map_Some:
  "those (map f xs) = Some ys \<longleftrightarrow> list_all2 (\<lambda>x y. f x = Some y) xs ys"
proof (induction xs arbitrary: ys)
  case Nil
  then show ?case by auto
next
  case (Cons x xs)
  then show ?case
    by (cases ys) (auto split: option.splits)
qed

lemma list_all2_memD:
  "list_all2 P xs ys \<Longrightarrow> x \<in> set xs \<Longrightarrow> \<exists>y \<in> set ys. P x y"
  by (induction rule: list_all2_induct) auto

lemma map_of_assign_all:
  "map_of (assign_all kvs m) k =
     (case map_of (rev kvs) k of Some v \<Rightarrow> Some v | None \<Rightarrow> map_of m k)"
  unfolding assign_all_def
proof (induction kvs arbitrary: m)
  case Nil
  then show ?case by simp
next
  case (Cons kv kvs)
  then show ?case
    by (auto simp: update_conv' map_add_def split: option.splits)
qed

lemma assign_all_fresh:
  "distinct (map fst m @ map fst kvs) \<Longrightarrow> assign_all kvs m = m @ kvs"
  unfolding assign_all_def
proof (induction kvs arbitrary: m)
  case Nil
  then show ?case by simp
next
  case (Cons kv kvs)
  have "AList.update (fst kv) (snd kv) m = m @ [kv]"
    using Cons.prems by (induction m) (auto simp: rev_image_eqI)
  moreover have "distinct (map fst (m @ [kv]) @ map fst kvs)"
    using Cons.prems by auto
  ultimately show ?case
    using Cons.IH [of "m @ [kv]"] by simp
qed

lemma set_foldl_set_add: "set (foldl set_add acc xs) \<subseteq> set acc \<union> set xs"
proof (induction xs arbitrary: acc)
  case Nil
  then show ?case by simp
next
  case (Cons x xs)
  have "set (set_add acc x) \<subseteq> set acc \<union> {x}" by (auto simp: set_add_def)
  with Cons.IH [of "set_add acc x"] show ?case by auto
qed

lemma set_assign_all: "set (assign_all kvs m) \<subseteq> set m \<union> set kvs"
  unfolding assign_all_def
proof (induction kvs arbitrary: m)
  case Nil
  then show ?case by simp
next
  case (Cons kv kvs)
  have "set (AList.update (fst kv) (snd kv) m) \<subseteq> set m \<union> {kv}"
    by (induction m) auto
  with Cons.IH [of "AList.update (fst kv) (snd kv) m"] show ?case by auto
qed

subsection \<open>Plan builder\<close>

text \<open>
  C2, as amended. The action of a plan is delete whenever the proposed value is null, create
  whenever the prior value is null and the proposed value is not, and update otherwise: the
  null test on the proposed value comes first.
\<close>

theorem newPlanBuilder_action:
  "newPlanBuilder schema prior config proposed = Some b \<Longrightarrow>
   pb_action b = (if IsNull proposed then Delete else if IsNull prior then Create else Update)"
  by (auto simp: newPlanBuilder_def split: Option.bind_splits)

theorem newPlanBuilder_action_witness:
  "map_option pb_action
     (newPlanBuilder ex_schema (ObjectV [(''a'', StringVal ''x'')]) NilVal (ObjectV [(''a'', StringVal ''y'')])) =
   Some Update"
proof -
  obtain b where h:
    "newPlanBuilder ex_schema (ObjectV [(''a'', StringVal ''x'')]) NilVal (ObjectV [(''a'', StringVal ''y'')]) = Some b"
    by (simp add: pb_defs ex_defs)
  from newPlanBuilder_action [OF h] have "pb_action b = Update" by simp
  with h show ?thesis by simp
qed

text \<open>
  C2, as stated, fails when the prior value and the proposed value are both null: the prior
  value is null, and the action is delete, not create.
\<close>

theorem newPlanBuilder_both_null:
  "IsNull (NullVal (ImpliedCtyType ex_schema)) \<and>
   map_option pb_action
     (newPlanBuilder ex_schema (NullVal (ImpliedCtyType ex_schema)) NilVal (NullVal (ImpliedCtyType ex_schema)))
     \<noteq> Some Create"
  by (simp add: pb_defs ex_defs)

text \<open>The nested plans that \<open>subBuilder\<close> makes are classified in the same order.\<close>

lemma subBuilder_action:
  "pb_action (subBuilder blockS prior config planned) =
     (if planned = None then Delete else if prior = None then Create else Update)"
  by (simp add: subBuilder_def)

text \<open>
  C1. \<open>AttrHasChange\<close> should report a change exactly when the prior and the planned value of
  the attribute differ. The code returns the truth value of the comparison itself: for the
  attribute \<open>a\<close> with prior value \<open>"x"\<close> it answers true when the planned value is \<open>"x"\<close> too,
  and false when the planned value is \<open>"y"\<close>.
\<close>

theorem AttrHasChange_inverted:
  "Option.bind (newPlanBuilder ex_schema (ObjectV [(''a'', StringVal ''x'')]) NilVal (ObjectV [(''a'', StringVal ''x'')]))
     (\<lambda>b. AttrHasChange b ''a'') = Some True \<and>
   Option.bind (newPlanBuilder ex_schema (ObjectV [(''a'', StringVal ''x'')]) NilVal (ObjectV [(''a'', StringVal ''y'')]))
     (\<lambda>b. AttrHasChange b ''a'') = Some False"
  by (simp add: pb_defs ex_defs)

text \<open>
  C6. \<open>AttrHasChange\<close> should answer true whenever the prior or the planned value is or
  contains an unknown value. For the list attribute \<open>l\<close> with prior value \<open>[1, 5]\<close> and planned
  value \<open>[2, unknown]\<close> the comparison is known to be false at the first element, and the code
  answers false.
\<close>

theorem AttrHasChange_unknown_element:
  "Option.bind
     (newPlanBuilder ex_list_schema
        (ObjectV [(''l'', ListV cty_Number [NumberIntVal 1, NumberIntVal 5])]) NilVal
        (ObjectV [(''l'', ListV cty_Number [NumberIntVal 2, UnknownVal cty_Number])]))
     (\<lambda>b. AttrHasChange b ''l'') = Some False"
  by (simp add: pb_defs ex_defs)

text \<open>When the comparison itself is unknown, the answer is true.\<close>

lemma AttrHasChange_unknown_comparison:
  "AttrChange b name = Some (prior, planned) \<Longrightarrow> \<not> IsKnown (Equals planned prior) \<Longrightarrow>
   AttrHasChange b name = Some True"
  by (simp add: AttrHasChange_def)

text \<open>
  C3. \<open>CanProvideAttrDefault\<close> should be true exactly when the attribute is computed and its
  value in the configuration is null. The code tests the planned value instead: for the
  computed attribute \<open>a\<close>, null in the configuration and unknown in the planned value (as it
  is once the defaults have been applied), the answer is false.
\<close>

theorem CanProvideAttrDefault_reads_planned:
  "Computed (ex_attr cty_String True) \<and>
   Option.bind
     (newPlanBuilder ex_schema (NullVal (ImpliedCtyType ex_schema))
        (ObjectV [(''a'', NullVal cty_String)]) (ObjectV [(''a'', UnknownVal cty_String)]))
     (\<lambda>b. Option.bind (ConfigReader b) (\<lambda>r. reader_Attr r ''a'')) = Some (NullVal cty_String) \<and>
   Option.bind
     (newPlanBuilder ex_schema (NullVal (ImpliedCtyType ex_schema))
        (ObjectV [(''a'', NullVal cty_String)]) (ObjectV [(''a'', UnknownVal cty_String)]))
     (\<lambda>b. CanProvideAttrDefault b ''a'') = Some False"
  by (simp add: pb_defs ex_defs ConfigReader_def)

subsection \<open>Object builder and reader\<close>

text \<open>
  C9. \<open>ReplaceBlocksMap\<close> with an empty collection should leave no block of the type. The
  code stores the empty collection in \<open>listBlocks\<close> and leaves \<open>mapBlocks\<close> as it was: a
  builder that held the block \<open>k\<close> of type \<open>m\<close> still counts one block and still freezes to
  a value that holds it.
\<close>

theorem ReplaceBlocksMap_empty_keeps_blocks:
  "Option.bind
     (NewObjectBuilderFull ex_map_schema (ObjectV [(''m'', MapV (cty_Object []) [(''k'', ObjectV [])])]))
     (\<lambda>b. Option.bind (ReplaceBlocksMap b ''m'' [])
        (\<lambda>b'. Option.bind (builder_BlockCount b' ''m'')
           (\<lambda>n. Option.bind (builder_ObjectVal b') (\<lambda>val. Some (n, val))))) =
   Some (1, ObjectV [(''m'', MapV (cty_Object []) [(''k'', ObjectV [])])])"
  by (simp add: NewObjectBuilderFull_def ReplaceBlocksMap_def builder_BlockCount_def pb_defs ex_defs
      freeze_map_def freeze_list_def freeze_single_def MapVal_def ObjectVal_def consistent_types_def)

text \<open>For a reader whose value holds the member for a declared block type, \<open>BlockCount\<close>
  returns a count: for single nesting 0 when the block value is null and 1 otherwise; for
  the other nesting modes 0 when the collection value is null or unknown, and the number of
  its elements otherwise.\<close>

lemma reader_BlockCount_member:
  assumes "map_of (NestedBlockTypes (r_schema r)) blockType = Some blockS"
    and "GetAttr (r_v r) blockType = Some obj"
    and "Nesting blockS \<noteq> NestingSingle \<Longrightarrow> IsKnown obj \<Longrightarrow> \<not> IsNull obj \<Longrightarrow> IsCollection obj"
  shows "reader_BlockCount r blockType =
     Some (if Nesting blockS = NestingSingle then (if IsNull obj then 0 else 1)
           else if IsNull obj \<or> \<not> IsKnown obj then 0
           else length (the (ElementIterator obj)))"
proof (cases "Nesting blockS = NestingSingle")
  case True
  then show ?thesis using assms by (simp add: reader_BlockCount_def blockVal_def)
next
  case False
  show ?thesis
  proof (cases "IsNull obj \<or> \<not> IsKnown obj")
    case True
    then show ?thesis using assms False
      by (cases "Nesting blockS") (auto simp: reader_BlockCount_def blockVal_def)
  next
    case nn: False
    then have "IsCollection obj" using assms(3) False by simp
    then have "LengthInt obj = Some (length (the (ElementIterator obj)))"
      by (cases obj) (simp_all add: index_keys_def)
    then show ?thesis using assms False nn
      by (cases "Nesting blockS") (auto simp: reader_BlockCount_def blockVal_def)
  qed
qed


text \<open>
  C10. \<open>BlockCount\<close> fails on a reader and a block type declared in the reader's schema. The
  value \<open>{s: null}\<close> conforms to the schema with the block type \<open>s\<close> of single nesting, and
  \<open>NewObjectReader\<close> accepts it; \<open>BlockCount\<close> for \<open>s\<close> is 0; \<open>BlockSingle\<close> for \<open>s\<close> returns a
  reader around the null block value, whose schema declares the block type \<open>t\<close>; and
  \<open>BlockCount\<close> for \<open>t\<close> on that reader panics.
\<close>

theorem reader_BlockCount_absent_single_block:
  "Value_Type ex_single_value = ImpliedCtyType ex_single_schema \<and>
   (\<exists>r r'. NewObjectReader ex_single_schema ex_single_value = Some r \<and>
      reader_BlockCount r ''s'' = Some 0 \<and>
      reader_BlockSingle r ''s'' = Some r' \<and>
      map_of (NestedBlockTypes (r_schema r')) ''t'' =
        Some (SchemaNestedBlockType NestingList (SchemaBlockType [] []) 0 0) \<and>
      reader_BlockCount r' ''t'' = None)"
proof -
  have "Value_Type ex_single_value = ImpliedCtyType ex_single_schema"
    by code_simp
  then show ?thesis
    by (simp add: ex_single_schema_def ex_single_value_def NewObjectReader_def reader_BlockCount_def
        reader_BlockSingle_def blockVal_def)
qed

subsection \<open>Default application\<close>

text \<open>
  C5. In the result of \<open>ApplyDefaults\<close> a declared attribute that was null is the unknown value
  of the attribute's type when the attribute is computed, and otherwise the attribute's
  static default, which is the null of the attribute's type when no default is declared; an
  attribute that was not null keeps its value. The schema's attribute names are those of a Go
  map, so no name is repeated, and the attribute's name is not also the name of a block type.
\<close>

theorem ApplyDefaults_attr:
  assumes "ApplyDefaults toCty S given = Some result"
    and "map_of (Attributes S) name = Some attrS"
    and "distinct (map fst (Attributes S))"
    and "name \<notin> fst ` set (NestedBlockTypes S)"
  shows "\<exists>gv. GetAttr given name = Some gv \<and>
           GetAttr result name =
             (if IsNull gv then
                (if Computed attrS then Some (UnknownVal (Type attrS))
                 else (case Default attrS of
                         None \<Rightarrow> Some (NullVal (Type attrS))
                       | Some d \<Rightarrow> toCty d (Type attrS)))
              else Some gv)"
proof -
  obtain attrs nbts where S: "S = SchemaBlockType attrs nbts" by (cases S)
  from assms(1) S obtain avs bvs where
    avs: "those (map (entry_of given) (map (map_prod id (attr_ApplyDefaults toCty)) attrs)) = Some avs"
    and bvs: "those (map (entry_of given) (map (map_prod id (nested_ApplyDefaults toCty)) nbts)) = Some bvs"
    and res: "result = ObjectV (assign_all bvs (assign_all avs []))"
    by (auto simp: ObjectVal_def split: Option.bind_splits)
  from avs have la: "list_all2 (\<lambda>na y. entry_of given (map_prod id (attr_ApplyDefaults toCty) na) = Some y) attrs avs"
    by (simp add: those_map_Some list_all2_map1)
  from bvs have lb: "list_all2 (\<lambda>nb y. entry_of given (map_prod id (nested_ApplyDefaults toCty) nb) = Some y) nbts bvs"
    by (simp add: those_map_Some list_all2_map1)
  have kb: "map fst bvs = map fst nbts"
    using lb by (induction rule: list_all2_induct) (auto simp: entry_of_def split: Option.bind_splits)
  have ka: "map fst avs = map fst attrs"
    using la by (induction rule: list_all2_induct) (auto simp: entry_of_def split: Option.bind_splits)
  from assms(2) S have mem: "(name, attrS) \<in> set attrs" by (auto dest: map_of_SomeD)
  from list_all2_memD [OF la mem]
  obtain y where y: "y \<in> set avs" "entry_of given (name, attr_ApplyDefaults toCty attrS) = Some y"
    by auto
  then obtain gv rv where gv: "GetAttr given name = Some gv" "attr_ApplyDefaults toCty attrS gv = Some rv" "y = (name, rv)"
    by (auto simp: entry_of_def split: Option.bind_splits)
  have "distinct (map fst avs)" using ka assms(3) S by simp
  then have "map_of avs name = Some rv" using y(1) gv(3) by simp
  moreover have "distinct (map fst (rev avs))" using \<open>distinct (map fst avs)\<close> by (simp add: rev_map [symmetric])
  ultimately have "map_of (rev avs) name = Some rv" using y(1) gv(3) by simp
  moreover have "set (map fst bvs) = fst ` set nbts" using kb by simp
  then have "name \<notin> fst ` set (rev bvs)" using assms(4) S by simp
  then have "map_of (rev bvs) name = None"
    by (simp add: map_of_eq_None_iff)
  ultimately have "GetAttr result name = Some rv"
    by (simp add: res map_of_assign_all)
  then show ?thesis using gv
    by (auto simp: attr_ApplyDefaults_def DefaultValue_def split: if_splits option.splits)
qed


theorem ApplyDefaults_attr_witness:
  "map_option (\<lambda>result. (GetAttr result ''a'', GetAttr result ''d'', GetAttr result ''n''))
     (ApplyDefaults ex_toCty ex_defaults_schema
        (ObjectV [(''a'', NullVal cty_String), (''d'', NullVal cty_String), (''n'', NullVal cty_String)])) =
   Some (Some (UnknownVal cty_String), Some (StringVal ''dflt''), Some (NullVal cty_String))"
proof -
  let ?given = "ObjectV [(''a'', NullVal cty_String), (''d'', NullVal cty_String), (''n'', NullVal cty_String)]"
  obtain result where h: "ApplyDefaults ex_toCty ex_defaults_schema ?given = Some result"
    by (simp add: ex_defs entry_of_def attr_ApplyDefaults_def DefaultValue_def)
  have d: "distinct (map fst (Attributes ex_defaults_schema))" by (simp add: ex_defs)
  have n: "\<And>name. name \<notin> fst ` set (NestedBlockTypes ex_defaults_schema)" by (simp add: ex_defs)
  have a1: "map_of (Attributes ex_defaults_schema) ''a'' = Some (ex_attr cty_String True)"
    by (simp add: ex_defs)
  have a2: "map_of (Attributes ex_defaults_schema) ''d'' = Some ((ex_attr cty_String False)\<lparr>Default := Some ()\<rparr>)"
    by (simp add: ex_defs)
  have a3: "map_of (Attributes ex_defaults_schema) ''n'' = Some (ex_attr cty_String False)"
    by (simp add: ex_defs)
  have "GetAttr result ''a'' = Some (UnknownVal cty_String)"
    using ApplyDefaults_attr [OF h a1 d n] by (simp add: ex_defs)
  moreover have "GetAttr result ''d'' = Some (StringVal ''dflt'')"
    using ApplyDefaults_attr [OF h a2 d n] by (simp add: ex_defs)
  moreover have "GetAttr result ''n'' = Some (NullVal cty_String)"
    using ApplyDefaults_attr [OF h a3 d n] by (simp add: ex_defs)
  ultimately show ?thesis using h by simp
qed

lemma attr_ApplyDefaults_idem:
  "attr_ApplyDefaults toCty a gv = Some rv \<Longrightarrow> attr_ApplyDefaults toCty a rv = Some rv"
  by (auto simp: attr_ApplyDefaults_def split: if_splits)

lemma ApplyDefaults_ObjectV:
  "ApplyDefaults toCty S given = Some r \<Longrightarrow> \<exists>kvs. r = ObjectV kvs"
  by (cases S) (auto simp: ObjectVal_def split: Option.bind_splits)

lemma entry_of_again:
  assumes "entry_of given nf = Some y"
    and "\<And>gv rv. snd nf gv = Some rv \<Longrightarrow> snd nf rv = Some rv"
    and "map_of vals (fst y) = Some (snd y)"
  shows "entry_of (ObjectV vals) nf = Some y"
proof -
  from assms(1) obtain gv rv where 0: "snd nf gv = Some rv" "y = (fst nf, rv)"
    by (auto simp: entry_of_def split: Option.bind_splits)
  from assms(2) [OF 0(1)] 0(2) assms(3) show ?thesis
    by (simp add: entry_of_def)
qed

lemma entry_of_fst: "entry_of given nf = Some y \<Longrightarrow> fst y = fst nf"
  by (auto simp: entry_of_def split: Option.bind_splits)

lemma entries_keys:
  "list_all2 (\<lambda>nf y. entry_of given nf = Some y) fs ys \<Longrightarrow> map fst ys = map fst fs"
  by (induction rule: list_all2_induct) (auto dest: entry_of_fst)

lemma entries_again:
  assumes "those (map (entry_of given) fs) = Some ys"
    and "\<And>nf gv rv. nf \<in> set fs \<Longrightarrow> snd nf gv = Some rv \<Longrightarrow> snd nf rv = Some rv"
    and "\<And>y. y \<in> set ys \<Longrightarrow> map_of vals (fst y) = Some (snd y)"
  shows "those (map (entry_of (ObjectV vals)) fs) = Some ys"
proof -
  from assms(1) have "list_all2 (\<lambda>nf y. entry_of given nf = Some y) fs ys"
    by (simp add: those_map_Some)
  then have "list_all2 (\<lambda>nf y. entry_of (ObjectV vals) nf = Some y) fs ys"
  proof (rule list.rel_mono_strong)
    fix nf y
    assume "nf \<in> set fs" "y \<in> set ys" "entry_of given nf = Some y"
    then show "entry_of (ObjectV vals) nf = Some y"
      using assms(2,3) by (intro entry_of_again) auto
  qed
  then show ?thesis by (simp add: those_map_Some)
qed

lemma distinct_assign_all:
  "distinct (map fst m) \<Longrightarrow> distinct (map fst (assign_all kvs m))"
  unfolding assign_all_def
  by (induction kvs arbitrary: m) (simp_all add: distinct_update)

lemma assign_all_self:
  "distinct (map fst vals) \<Longrightarrow> assign_all vals [] = vals"
  using assign_all_fresh [of "[]" vals] by simp

lemma stored_as_ObjectV:
  "\<forall>v \<in> set vals. \<exists>kvs. v = ObjectV kvs \<Longrightarrow> map (stored_as ety) vals = vals"
  by (induction vals) auto

lemma set_add_present:
  "list_ex (\<lambda>ev. Equals ev x = BoolVal True) acc \<Longrightarrow> set_add acc x = acc"
  by (simp add: set_add_def)

lemma set_add_absent:
  "\<not> list_ex (\<lambda>ev. Equals ev x = BoolVal True) acc \<Longrightarrow> set_add acc x = acc @ [x]"
  by (simp add: set_add_def)

lemma foldl_set_add_again:
  "foldl set_add [] acc = acc \<Longrightarrow> foldl set_add [] (foldl set_add acc xs) = foldl set_add acc xs"
proof (induction xs arbitrary: acc)
  case Nil
  then show ?case by simp
next
  case (Cons x xs)
  have "foldl set_add [] (set_add acc x) = set_add acc x"
  proof (cases "list_ex (\<lambda>ev. Equals ev x = BoolVal True) acc")
    case True
    then show ?thesis using Cons.prems by (simp add: set_add_present)
  next
    case False
    then show ?thesis using Cons.prems by (simp add: set_add_absent)
  qed
  from Cons.IH [OF this] show ?case by simp
qed

lemma foldl_set_add_prefix:
  "\<exists>ys. foldl set_add acc xs = acc @ ys"
proof (induction xs arbitrary: acc)
  case Nil
  then show ?case by simp
next
  case (Cons x xs)
  from Cons.IH [of "set_add acc x"] obtain ys where "foldl set_add (set_add acc x) xs = set_add acc x @ ys"
    by blast
  then show ?case
    by (cases "list_ex (\<lambda>ev. Equals ev x = BoolVal True) acc")
      (simp_all add: set_add_present set_add_absent)
qed


lemma those_map_range:
  "those (map f xs) = Some ys \<Longrightarrow> y \<in> set ys \<Longrightarrow> \<exists>x \<in> set xs. f x = Some y"
  unfolding those_map_Some
  by (induction rule: list_all2_induct) auto

lemma those_map_fixed:
  "(\<And>y. y \<in> set ys \<Longrightarrow> f y = Some y) \<Longrightarrow> those (map f ys) = Some ys"
  unfolding those_map_Some by (simp add: list_all2_same)

lemma map_snd_index_keys: "map snd (index_keys vs) = vs"
  by (simp add: index_keys_def)

lemma elems_ApplyDefaults_again:
  assumes "\<And>v. v \<in> set vals \<Longrightarrow> f v = Some v"
    and "r = TupleV vals \<or> r = ListV t vals \<or> r = SetV t vals"
  shows "elems_ApplyDefaults f r = Some vals"
proof -
  from assms(2) obtain it where it: "LengthInt r = Some (length vals)" "ElementIterator r = Some it"
    "map snd it = vals"
    by (auto simp: map_snd_index_keys comp_def)
  have "those (map (\<lambda>kv. f (snd kv)) it) = those (map f (map snd it))"
    by (simp add: comp_def)
  also have "\<dots> = Some vals"
    unfolding it(3) using assms(1) by (rule those_map_fixed)
  finally show ?thesis using it by (simp add: elems_ApplyDefaults_def)
qed

lemma elems_ApplyDefaults_results:
  assumes "elems_ApplyDefaults f given = Some vals" and "v \<in> set vals"
  shows "\<exists>x. f x = Some v"
proof -
  from assms(1) obtain it :: "(cty_value \<times> cty_value) list"
    where "those (map (\<lambda>kv. f (snd kv)) it) = Some vals"
    by (auto simp: elems_ApplyDefaults_def split: Option.bind_splits)
  from those_map_range [OF this assms(2)] show ?thesis by blast
qed

lemma entries_ApplyDefaults_again:
  assumes "\<And>kv. kv \<in> set vals \<Longrightarrow> f (snd kv) = Some (snd kv)"
    and "distinct (map fst vals)"
    and "r = ObjectV vals \<or> r = MapV t vals"
  shows "entries_ApplyDefaults f r = Some vals"
proof -
  let ?it = "map (\<lambda>kv. (StringVal (fst kv), snd kv)) vals"
  from assms(3) have it: "LengthInt r = Some (length vals)" "ElementIterator r = Some ?it"
    by auto
  have "those (map (\<lambda>kv. do { k \<leftarrow> AsString (fst kv); rv \<leftarrow> f (snd kv); Some (k, rv) }) ?it) =
        those (map (\<lambda>kv. do { rv \<leftarrow> f (snd kv); Some (fst kv, rv) }) vals)"
    by (simp add: comp_def)
  also have "\<dots> = Some vals"
    by (rule those_map_fixed) (simp add: assms(1))
  finally show ?thesis
    using it assms(2) by (simp add: entries_ApplyDefaults_def assign_all_self)
qed

lemma entries_ApplyDefaults_results:
  assumes "entries_ApplyDefaults f given = Some vals"
  shows "distinct (map fst vals) \<and> (\<forall>kv \<in> set vals. \<exists>x. f x = Some (snd kv))"
proof -
  from assms obtain it :: "(cty_value \<times> cty_value) list" and kvs where
    kvs: "those (map (\<lambda>kv. do { k \<leftarrow> AsString (fst kv); rv \<leftarrow> f (snd kv); Some (k, rv) }) it) = Some kvs"
    and vals: "vals = assign_all kvs []"
    by (auto simp: entries_ApplyDefaults_def split: Option.bind_splits)
  have "\<exists>x. f x = Some (snd kv)" if "kv \<in> set vals" for kv
  proof -
    from that vals set_assign_all [of kvs "[]"] have "kv \<in> set kvs" by auto
    from those_map_range [OF kvs this]
    obtain x where "do { k \<leftarrow> AsString (fst x); rv \<leftarrow> f (snd x); Some (k, rv) } = Some kv"
      by blast
    then show ?thesis
      by (auto simp: bind_eq_Some_conv)
  qed
  moreover have "distinct (map fst vals)"
    unfolding vals by (rule distinct_assign_all) simp
  ultimately show ?thesis by blast
qed


lemma SetVal_again:
  assumes "SetVal vals = Some r" and "\<forall>v \<in> set vals. \<exists>kvs. v = ObjectV kvs"
  shows "\<exists>ds. r = SetV (elementType_of vals) ds \<and> ds \<noteq> [] \<and> set ds \<subseteq> set vals \<and> SetVal ds = Some r"
proof -
  from assms(1) have ne: "vals \<noteq> []" and ct: "consistent_types vals"
    and r: "r = SetV (elementType_of vals) (foldl set_add [] (map (stored_as (elementType_of vals)) vals))"
    by (auto simp: SetVal_def split: if_splits)
  define ds where "ds = foldl set_add [] vals"
  from assms(2) have st: "map (stored_as (elementType_of vals)) vals = vals"
    by (rule stored_as_ObjectV)
  have r': "r = SetV (elementType_of vals) ds"
    unfolding ds_def r st ..
  from ne obtain v vs where vals: "vals = v # vs" by (cases vals) auto
  with assms(2) obtain kvs where v: "v = ObjectV kvs" by auto
  have "ds = foldl set_add [v] vs" by (simp add: ds_def vals set_add_absent)
  with foldl_set_add_prefix [of "[v]" vs] obtain ys where ds: "ds = v # ys" by auto
  have sub: "set ds \<subseteq> set vals" using set_foldl_set_add [of "[]" vals] by (simp add: ds_def)
  have et: "elementType_of ds = elementType_of vals"
    unfolding ds by (simp add: vals v)
  have ct': "consistent_types ds"
    using ct sub unfolding consistent_types_def et by (auto simp: list_all_iff)
  have st': "map (stored_as (elementType_of vals)) ds = ds"
    by (rule stored_as_ObjectV) (use sub assms(2) in auto)
  have again: "foldl set_add [] ds = ds"
    unfolding ds_def by (rule foldl_set_add_again) simp
  have ne': "ds \<noteq> []" by (simp add: ds)
  have "SetVal ds = Some (SetV (elementType_of ds) (foldl set_add [] (map (stored_as (elementType_of ds)) ds)))"
    using ne' ct' by (simp add: SetVal_def)
  then have "SetVal ds = Some r"
    by (simp only: et st' again r')
  with r' ne' sub show ?thesis by blast
qed

lemma ListVal_elems:
  assumes "ListVal vals = Some r" and "\<forall>v \<in> set vals. \<exists>kvs. v = ObjectV kvs"
  shows "r = ListV (elementType_of vals) vals"
  using assms stored_as_ObjectV [OF assms(2)] by (auto simp: ListVal_def split: if_splits)

lemma MapVal_entries:
  assumes "MapVal vals = Some r" and "\<forall>kv \<in> set vals. \<exists>kvs. snd kv = ObjectV kvs"
  shows "r = MapV (elementType_of (map snd vals)) vals"
proof -
  have "map (\<lambda>kv. (fst kv, stored_as ety (snd kv))) vals = vals" for ety
    using assms(2) by (induction vals) auto
  with assms(1) show ?thesis by (auto simp: MapVal_def split: if_splits)
qed

lemma ApplyDefaults_idem:
  fixes S :: "'g SchemaBlockType" and nb :: "'g SchemaNestedBlockType"
  shows "wf_schema S \<Longrightarrow> ApplyDefaults toCty S given = Some r \<Longrightarrow> ApplyDefaults toCty S r = Some r"
    and "wf_nested nb \<Longrightarrow> nested_ApplyDefaults toCty nb given = Some r \<Longrightarrow>
         nested_ApplyDefaults toCty nb r = Some r"
proof (induction S and nb arbitrary: given r and given r)
  case (SchemaBlockType attrs nbts)
  let ?fa = "map (map_prod id (attr_ApplyDefaults toCty)) attrs"
  let ?fb = "map (map_prod id (nested_ApplyDefaults toCty)) nbts"
  from SchemaBlockType.prems(2) obtain avs bvs where
    avs: "those (map (entry_of given) ?fa) = Some avs"
    and bvs: "those (map (entry_of given) ?fb) = Some bvs"
    and r: "r = ObjectV (assign_all bvs (assign_all avs []))"
    by (auto simp: ObjectVal_def split: Option.bind_splits)
  from avs have "list_all2 (\<lambda>nf y. entry_of given nf = Some y) ?fa avs"
    by (simp only: those_map_Some)
  then have "map fst avs = map fst ?fa" by (rule entries_keys)
  then have ka: "map fst avs = map fst attrs" by (simp add: comp_def)
  from bvs have "list_all2 (\<lambda>nf y. entry_of given nf = Some y) ?fb bvs"
    by (simp only: those_map_Some)
  then have "map fst bvs = map fst ?fb" by (rule entries_keys)
  then have kb: "map fst bvs = map fst nbts" by (simp add: comp_def)
  from SchemaBlockType.prems(1) have dist: "distinct (map fst avs @ map fst bvs)"
    by (simp add: ka kb)
  then have "assign_all avs [] = avs" by (intro assign_all_self) simp
  moreover from dist have "assign_all bvs avs = avs @ bvs" by (rule assign_all_fresh)
  ultimately have r': "r = ObjectV (avs @ bvs)" using r by simp
  have look: "map_of (avs @ bvs) (fst y) = Some (snd y)" if "y \<in> set (avs @ bvs)" for y
  proof -
    from dist have "distinct (map fst (avs @ bvs))" by simp
    then show ?thesis using that by (cases y) (simp only: map_of_eq_Some_iff fst_conv snd_conv)
  qed
  have "those (map (entry_of (ObjectV (avs @ bvs))) ?fa) = Some avs"
  proof (rule entries_again [OF avs])
    fix nf gv rv
    assume "nf \<in> set ?fa" "snd nf gv = Some rv"
    then show "snd nf rv = Some rv" by (auto dest: attr_ApplyDefaults_idem)
  next
    fix y assume "y \<in> set avs"
    then show "map_of (avs @ bvs) (fst y) = Some (snd y)" by (intro look) simp
  qed
  moreover have "those (map (entry_of (ObjectV (avs @ bvs))) ?fb) = Some bvs"
  proof (rule entries_again [OF bvs])
    fix nf gv rv
    assume nf: "nf \<in> set ?fb" and 1: "snd nf gv = Some rv"
    from nf obtain p where p: "p \<in> set nbts" "nf = map_prod id (nested_ApplyDefaults toCty) p"
      by auto
    have 2: "snd nf = nested_ApplyDefaults toCty (snd p)" unfolding p(2) by (cases p) simp
    from p(1) SchemaBlockType.prems(1) have 3: "wf_nested (snd p)"
      by (cases p) (auto simp: list_all_iff)
    have "snd p \<in> Basic_BNFs.snds p" by (cases p) (simp add: snds.simps)
    from SchemaBlockType.IH [OF p(1) this 3] 1 show "snd nf rv = Some rv"
      unfolding 2 by blast
  next
    fix y assume "y \<in> set bvs"
    then show "map_of (avs @ bvs) (fst y) = Some (snd y)" by (intro look) simp
  qed
  ultimately show ?case
    using r r' by (simp add: ObjectVal_def)
next
  case (SchemaNestedBlockType nesting content maxItems minItems)
  let ?f = "ApplyDefaults toCty content"
  let ?nb = "SchemaNestedBlockType nesting content maxItems minItems"
  from SchemaNestedBlockType.prems(1) have wf: "wf_schema content" by simp
  have idem: "?f y = Some y" if "?f x = Some y" for x y
    using SchemaNestedBlockType.IH [OF wf that] .
  show ?case
  proof (cases nesting)
    case nestingInvalid
    with SchemaNestedBlockType.prems(2) show ?thesis by simp
  next
    case NestingSingle
    show ?thesis
    proof (cases "IsNull given")
      case True
      with SchemaNestedBlockType.prems(2) NestingSingle show ?thesis by auto
    next
      case False
      with SchemaNestedBlockType.prems(2) NestingSingle have 1: "?f given = Some r" by simp
      from ApplyDefaults_ObjectV [OF 1] have "\<not> IsNull r" by auto
      with idem [OF 1] NestingSingle show ?thesis by simp
    qed
  next
    case NestingList
    define K where "K = (\<lambda>vals.
        if \<not> IsListType (impliedCtyType ?nb) then Some (TupleVal vals)
        else if vals = [] then map_option ListValEmpty (ElementType (impliedCtyType ?nb))
        else ListVal vals)"
    have step: "nested_ApplyDefaults toCty ?nb x = Option.bind (elems_ApplyDefaults ?f x) K" for x
      unfolding K_def NestingList by (simp del: impliedCtyType.simps)
    from SchemaNestedBlockType.prems(2) obtain vals where
      vals: "elems_ApplyDefaults ?f given = Some vals" and k: "K vals = Some r"
      unfolding step by (auto simp: bind_eq_Some_conv)
    have fixed: "?f v = Some v" if "v \<in> set vals" for v
      using elems_ApplyDefaults_results [OF vals that] idem by blast
    have obj: "\<forall>v \<in> set vals. \<exists>kvs. v = ObjectV kvs"
      using elems_ApplyDefaults_results [OF vals] ApplyDefaults_ObjectV by blast
    from k have "r = TupleV vals \<or> (\<exists>t. r = ListV t vals)"
      unfolding K_def using ListVal_elems [OF _ obj]
      by (auto simp: TupleVal_def ListValEmpty_def split: if_splits)
    then obtain t where "r = TupleV vals \<or> r = ListV t vals \<or> r = SetV t vals" by blast
    from elems_ApplyDefaults_again [OF fixed this] k show ?thesis
      unfolding step by simp
  next
    case NestingMap
    define K where "K = (\<lambda>vals.
        if \<not> IsMapType (impliedCtyType ?nb) then Some (ObjectVal vals)
        else if vals = [] then map_option MapValEmpty (ElementType (impliedCtyType ?nb))
        else MapVal vals)"
    have step: "nested_ApplyDefaults toCty ?nb x = Option.bind (entries_ApplyDefaults ?f x) K" for x
      unfolding K_def NestingMap by (simp del: impliedCtyType.simps)
    from SchemaNestedBlockType.prems(2) obtain vals where
      vals: "entries_ApplyDefaults ?f given = Some vals" and k: "K vals = Some r"
      unfolding step by (auto simp: bind_eq_Some_conv)
    note res = entries_ApplyDefaults_results [OF vals]
    have fixed: "?f (snd kv) = Some (snd kv)" if "kv \<in> set vals" for kv
      using res that idem by blast
    have obj: "\<forall>kv \<in> set vals. \<exists>kvs. snd kv = ObjectV kvs"
      using res ApplyDefaults_ObjectV by blast
    from res have dist: "distinct (map fst vals)" by blast
    from k have "r = ObjectV vals \<or> (\<exists>t. r = MapV t vals)"
      unfolding K_def using MapVal_entries [OF _ obj]
      by (auto simp: ObjectVal_def MapValEmpty_def split: if_splits)
    then obtain t where "r = ObjectV vals \<or> r = MapV t vals" by blast
    from entries_ApplyDefaults_again [OF fixed dist this] k show ?thesis
      unfolding step by simp
  next
    case NestingSet
    define K where "K = (\<lambda>vals.
        if vals = [] then map_option SetValEmpty (ElementType (impliedCtyType ?nb))
        else SetVal vals)"
    have step: "nested_ApplyDefaults toCty ?nb x = Option.bind (elems_ApplyDefaults ?f x) K" for x
      unfolding K_def NestingSet by (simp del: impliedCtyType.simps)
    from SchemaNestedBlockType.prems(2) obtain vals where
      vals: "elems_ApplyDefaults ?f given = Some vals" and k: "K vals = Some r"
      unfolding step by (auto simp: bind_eq_Some_conv)
    have fixed: "?f v = Some v" if "v \<in> set vals" for v
      using elems_ApplyDefaults_results [OF vals that] idem by blast
    have obj: "\<forall>v \<in> set vals. \<exists>kvs. v = ObjectV kvs"
      using elems_ApplyDefaults_results [OF vals] ApplyDefaults_ObjectV by blast
    show ?thesis
    proof (cases "vals = []")
      case True
      with k obtain t where r: "r = SetV t []" by (auto simp: K_def SetValEmpty_def)
      then have "r = TupleV [] \<or> r = ListV t [] \<or> r = SetV t []" by simp
      from elems_ApplyDefaults_again [OF _ this] have "elems_ApplyDefaults ?f r = Some []" by simp
      with k True show ?thesis unfolding step by simp
    next
      case False
      with k have "SetVal vals = Some r" by (simp add: K_def)
      from SetVal_again [OF this obj] obtain ds where
        ds: "r = SetV (elementType_of vals) ds" "ds \<noteq> []" "set ds \<subseteq> set vals" "SetVal ds = Some r"
        by blast
      have "elems_ApplyDefaults ?f r = Some ds"
        by (rule elems_ApplyDefaults_again [where t = "elementType_of vals"]) (use ds fixed in auto)
      with ds show ?thesis
        unfolding step by (simp add: K_def)
    qed
  qed
qed

text \<open>
  C4. Applying the defaults to the result of applying the defaults gives that result again,
  for every schema whose names are well-formed, every conversion of the Go defaults and
  every value (when the first application panics, there is no result to apply them to).
\<close>

theorem ApplyDefaults_idempotent:
  "wf_schema S \<Longrightarrow>
   Option.bind (ApplyDefaults toCty S V) (ApplyDefaults toCty S) = ApplyDefaults toCty S V"
proof (cases "ApplyDefaults toCty S V")
  case None
  then show ?thesis by simp
next
  case (Some r)
  assume "wf_schema S"
  from ApplyDefaults_idem(1) [OF this Some] Some show ?thesis by simp
qed

lemmas ad_defs = entry_of_def attr_ApplyDefaults_def DefaultValue_def elems_ApplyDefaults_def
  entries_ApplyDefaults_def assign_all_def ObjectVal_def MapVal_def SetVal_def ListVal_def
  consistent_types_def set_add_def Equals_early_def Equals_sets_def MapValEmpty_def SetValEmpty_def
  ListValEmpty_def TupleVal_def

theorem ApplyDefaults_idempotent_witness:
  "ApplyDefaults ex_toCty ex_nested_schema ex_nested_value =
     Some (ObjectV
       [(''a'', UnknownVal cty_String),
        (''m'', MapV (ImpliedCtyType ex_defaults_schema)
                  [(''k'', ObjectV [(''a'', UnknownVal cty_String), (''d'', StringVal ''dflt''),
                                    (''n'', StringVal ''x'')])]),
        (''s'', SetV (ImpliedCtyType ex_schema)
                  [ObjectV [(''a'', UnknownVal cty_String)], ObjectV [(''a'', StringVal ''y'')]])]) \<and>
   ApplyDefaults ex_toCty ex_nested_schema
     (ObjectV
       [(''a'', UnknownVal cty_String),
        (''m'', MapV (ImpliedCtyType ex_defaults_schema)
                  [(''k'', ObjectV [(''a'', UnknownVal cty_String), (''d'', StringVal ''dflt''),
                                    (''n'', StringVal ''x'')])]),
        (''s'', SetV (ImpliedCtyType ex_schema)
                  [ObjectV [(''a'', UnknownVal cty_String)], ObjectV [(''a'', StringVal ''y'')]])]) =
     Some (ObjectV
       [(''a'', UnknownVal cty_String),
        (''m'', MapV (ImpliedCtyType ex_defaults_schema)
                  [(''k'', ObjectV [(''a'', UnknownVal cty_String), (''d'', StringVal ''dflt''),
                                    (''n'', StringVal ''x'')])]),
        (''s'', SetV (ImpliedCtyType ex_schema)
                  [ObjectV [(''a'', UnknownVal cty_String)], ObjectV [(''a'', StringVal ''y'')]])])"
proof -
  have wf: "wf_schema ex_nested_schema" by (simp add: ex_defs)
  have h: "ApplyDefaults ex_toCty ex_nested_schema ex_nested_value =
     Some (ObjectV
       [(''a'', UnknownVal cty_String),
        (''m'', MapV (ImpliedCtyType ex_defaults_schema)
                  [(''k'', ObjectV [(''a'', UnknownVal cty_String), (''d'', StringVal ''dflt''),
                                    (''n'', StringVal ''x'')])]),
        (''s'', SetV (ImpliedCtyType ex_schema)
                  [ObjectV [(''a'', UnknownVal cty_String)], ObjectV [(''a'', StringVal ''y'')]])])"
    by (simp add: ex_defs ad_defs)
  from ApplyDefaults_idempotent [OF wf, of ex_toCty ex_nested_value] h show ?thesis
    by simp
qed

subsection \<open>Validation\<close>

lemma those_concat_memD:
  "those (map f xs) = Some dss \<Longrightarrow> d \<in> set (concat dss) \<Longrightarrow>
   \<exists>x \<in> set xs. \<exists>ds. f x = Some ds \<and> d \<in> set ds"
proof (induction xs arbitrary: dss)
  case Nil
  then show ?case by simp
next
  case (Cons x xs)
  from Cons.prems(1) obtain ds0 rest where 0: "f x = Some ds0" "those (map f xs) = Some rest" "dss = ds0 # rest"
    by (auto split: option.splits)
  show ?case
  proof (cases "d \<in> set ds0")
    case True
    with 0 show ?thesis by auto
  next
    case False
    with Cons.prems(2) 0 have "d \<in> set (concat rest)" by simp
    from Cons.IH [OF 0(2) this] show ?thesis by auto
  qed
qed

lemma validate_elems_memD:
  assumes "validate_elems path_of f av = Some ds" and "d \<in> set ds"
  shows "\<exists>it. ElementIterator av = Some it \<and>
           (\<exists>kv \<in> set it. \<exists>ds' d'. f (snd kv) = Some ds' \<and> d' \<in> set ds' \<and>
              d = d'\<lparr>Path := path_of (fst kv) @ Path d'\<rparr>)"
proof -
  from assms obtain it dss where it: "ElementIterator av = Some it"
    and dss: "those (map (\<lambda>kv. map_option (UnderPath (path_of (fst kv))) (f (snd kv))) it) = Some dss"
    and ds: "ds = concat dss"
    by (auto simp: validate_elems_def split: Option.bind_splits)
  from those_concat_memD [OF dss] assms(2) ds
  obtain kv ds0 where kv: "kv \<in> set it"
    and ds0: "map_option (UnderPath (path_of (fst kv))) (f (snd kv)) = Some ds0" "d \<in> set ds0"
    by blast
  from ds0 obtain ds' where ds': "f (snd kv) = Some ds'" "ds0 = UnderPath (path_of (fst kv)) ds'"
    by auto
  with ds0(2) obtain d' where "d' \<in> set ds'" "d = d'\<lparr>Path := path_of (fst kv) @ Path d'\<rparr>"
    by (auto simp: UnderPath_def)
  with it kv ds'(1) show ?thesis by blast
qed

lemma nested_Validate_prefix:
  assumes "nested_Validate conv blockS name av = Some ds" and "d \<in> set ds"
  shows "\<exists>rest. Path d = GetAttrStep name # rest"
proof (cases blockS)
  case (SchemaNestedBlockType nesting content maxItems minItems)
  show ?thesis
  proof (cases nesting)
    case nestingInvalid
    then show ?thesis using assms SchemaNestedBlockType by auto
  next
    case NestingSingle
    then show ?thesis using assms SchemaNestedBlockType
      by (auto simp: UnderPath_def split: if_splits)
  next
    case NestingList
    then have "validate_elems (\<lambda>ek. [GetAttrStep name, IndexStep ek]) (Validate conv content) av = Some ds"
      using assms SchemaNestedBlockType by simp
    from validate_elems_memD [OF this assms(2)] show ?thesis by auto
  next
    case NestingMap
    then have "validate_elems (\<lambda>ek. [GetAttrStep name, IndexStep ek]) (Validate conv content) av = Some ds"
      using assms SchemaNestedBlockType by simp
    from validate_elems_memD [OF this assms(2)] show ?thesis by auto
  next
    case NestingSet
    then have "validate_elems (\<lambda>ek. [GetAttrStep name]) (Validate conv content) av = Some ds"
      using assms SchemaNestedBlockType by simp
    from validate_elems_memD [OF this assms(2)] show ?thesis by auto
  qed
qed

lemma Validate_paths:
  assumes "Validate conv S val = Some ds" and "d \<in> set ds"
  shows "Path d = [] \<or> (\<exists>n rest. Path d = GetAttrStep n # rest)"
proof (cases S)
  case (SchemaBlockType attrs nbts)
  show ?thesis
  proof (cases "IsObjectType (Value_Type val)")
    case False
    then show ?thesis using assms SchemaBlockType by auto
  next
    case True
    with assms SchemaBlockType obtain ads bds where
      ads: "those (map (validate_attr conv val) attrs) = Some ads"
      and bds: "those (map (validate_block val) (map (map_prod id (nested_Validate conv)) nbts)) = Some bds"
      and ds: "ds = concat ads @ concat bds"
      by (auto split: Option.bind_splits)
    from assms(2) ds consider "d \<in> set (concat ads)" | "d \<in> set (concat bds)" by auto
    then show ?thesis
    proof cases
      case 1
      from those_concat_memD [OF ads 1] show ?thesis
        by (auto simp: validate_attr_def UnderPath_def split: Option.bind_splits)
    next
      case 2
      from those_concat_memD [OF bds 2]
      obtain nf ds0 where vb: "validate_block val nf = Some ds0" and d0: "d \<in> set ds0"
        and nf: "nf \<in> set (map (map_prod id (nested_Validate conv)) nbts)"
        by blast
      from nf obtain p where "p \<in> set nbts" and p: "nf = map_prod id (nested_Validate conv) p"
        by (metis (no_types) in_set_conv_nth length_map nth_map)
      have snd_nf: "snd nf = nested_Validate conv (snd p)"
        unfolding p by (cases p) simp
      from vb obtain av where "snd nf (fst nf) av = Some ds0"
        by (auto simp: validate_block_def split: Option.bind_splits)
      then have "nested_Validate conv (snd p) (fst nf) av = Some ds0"
        by (simp only: snd_nf)
      from nested_Validate_prefix [OF this d0] show ?thesis by blast
    qed
  qed
qed

lemmas val_defs = validate_elems_def validate_attr_def validate_block_def attr_Validate_def
  UnderPath_def HasErrors_def index_keys_def

lemma those_map_memD:
  "those (map f xs) = Some ys \<Longrightarrow> x \<in> set xs \<Longrightarrow> \<exists>y \<in> set ys. f x = Some y"
  using list_all2_memD [of "\<lambda>x y. f x = Some y" xs ys x] by (simp add: those_map_Some)

lemma validate_elems_memI:
  assumes "validate_elems path_of f av = Some ds"
  shows "\<exists>it. ElementIterator av = Some it \<and>
           (\<forall>kv \<in> set it. \<exists>ds'. f (snd kv) = Some ds' \<and>
              (\<forall>d' \<in> set ds'. d'\<lparr>Path := path_of (fst kv) @ Path d'\<rparr> \<in> set ds))"
proof -
  from assms obtain it dss where it: "ElementIterator av = Some it"
    and dss: "those (map (\<lambda>kv. map_option (UnderPath (path_of (fst kv))) (f (snd kv))) it) = Some dss"
    and ds: "ds = concat dss"
    by (auto simp: validate_elems_def split: Option.bind_splits)
  have "\<exists>ds'. f (snd kv) = Some ds' \<and>
              (\<forall>d' \<in> set ds'. d'\<lparr>Path := path_of (fst kv) @ Path d'\<rparr> \<in> set ds)"
    if kv: "kv \<in> set it" for kv
  proof -
    from those_map_memD [OF dss kv] obtain ds0 where ds0: "ds0 \<in> set dss"
      "map_option (UnderPath (path_of (fst kv))) (f (snd kv)) = Some ds0"
      by blast
    from ds0(2) obtain ds' where ds': "f (snd kv) = Some ds'" "ds0 = UnderPath (path_of (fst kv)) ds'"
      by auto
    have "d'\<lparr>Path := path_of (fst kv) @ Path d'\<rparr> \<in> set ds" if "d' \<in> set ds'" for d'
    proof -
      from that have "d'\<lparr>Path := path_of (fst kv) @ Path d'\<rparr> \<in> set ds0"
        unfolding ds'(2) UnderPath_def by simp
      with ds0(1) show ?thesis unfolding ds by auto
    qed
    with ds'(1) show ?thesis by blast
  qed
  with it show ?thesis by blast
qed

lemma nested_Validate_elems:
  assumes "Nesting blockS = NestingSet \<or> Nesting blockS = NestingList \<or> Nesting blockS = NestingMap"
  shows "nested_Validate conv blockS name av =
           validate_elems (\<lambda>ek. if Nesting blockS = NestingSet then [GetAttrStep name]
                                 else [GetAttrStep name, IndexStep ek])
             (Validate conv (Content blockS)) av"
  using assms by (cases blockS) auto

lemma Validate_block_member:
  assumes "Validate conv S val = Some ds"
    and "IsObjectType (Value_Type val)"
    and "(name, blockS) \<in> set (NestedBlockTypes S)"
  shows "\<exists>av bds. GetAttr val name = Some av \<and> nested_Validate conv blockS name av = Some bds \<and>
           set bds \<subseteq> set ds"
proof (cases S)
  case (SchemaBlockType attrs nbts)
  with assms(1,2) obtain ads bdss where
    bdss: "those (map (validate_block val) (map (map_prod id (nested_Validate conv)) nbts)) = Some bdss"
    and ds: "ds = concat ads @ concat bdss"
    by (auto split: Option.bind_splits)
  from assms(3) SchemaBlockType have "(name, blockS) \<in> set nbts" by simp
  then have "map_prod id (nested_Validate conv) (name, blockS) \<in> set (map (map_prod id (nested_Validate conv)) nbts)"
    by (simp only: set_map) (rule imageI)
  then have "(name, nested_Validate conv blockS) \<in> set (map (map_prod id (nested_Validate conv)) nbts)"
    by simp
  from those_map_memD [OF bdss this] obtain bds where bds: "bds \<in> set bdss"
    "validate_block val (name, nested_Validate conv blockS) = Some bds"
    by blast
  from bds(2) obtain av where av: "GetAttr val name = Some av" "nested_Validate conv blockS name av = Some bds"
    by (auto simp: validate_block_def split: Option.bind_splits)
  from bds(1) have "set bds \<subseteq> set ds" unfolding ds by auto
  with av show ?thesis by blast
qed

text \<open>
  C7. When a value is validated against a schema with a block type of set, list or map
  nesting, the block loop of \<open>Validate\<close> validates every element of the block's value against
  the block type's body, and what it reports for the block type (\<open>bds\<close>) is part of the
  result of \<open>Validate\<close>. Every diagnostic produced while validating an element is reported
  with a path put in front of its own, which is empty or starts with an attribute name: for
  set nesting the path of the block itself, with no index or key step; for list and map
  nesting the path of the block and then an index step with the element's key. Nothing else
  is reported for the block type.
\<close>

theorem Validate_block_paths:
  assumes "Validate conv S val = Some ds"
    and "IsObjectType (Value_Type val)"
    and "(name, blockS) \<in> set (NestedBlockTypes S)"
    and "Nesting blockS = NestingSet \<or> Nesting blockS = NestingList \<or> Nesting blockS = NestingMap"
  shows "\<exists>av it bds. GetAttr val name = Some av \<and> ElementIterator av = Some it \<and>
           nested_Validate conv blockS name av = Some bds \<and> set bds \<subseteq> set ds \<and>
           (\<forall>kv \<in> set it. \<exists>ds'. Validate conv (Content blockS) (snd kv) = Some ds' \<and>
              (\<forall>d' \<in> set ds'.
                 (Path d' = [] \<or> (\<exists>n rest. Path d' = GetAttrStep n # rest)) \<and>
                 d'\<lparr>Path := (if Nesting blockS = NestingSet then [GetAttrStep name]
                              else [GetAttrStep name, IndexStep (fst kv)]) @ Path d'\<rparr> \<in> set bds)) \<and>
           (\<forall>d \<in> set bds. \<exists>kv \<in> set it. \<exists>ds' d'.
              Validate conv (Content blockS) (snd kv) = Some ds' \<and> d' \<in> set ds' \<and>
              d = d'\<lparr>Path := (if Nesting blockS = NestingSet then [GetAttrStep name]
                               else [GetAttrStep name, IndexStep (fst kv)]) @ Path d'\<rparr>)"
proof -
  define path_of where "path_of = (\<lambda>ek. if Nesting blockS = NestingSet then [GetAttrStep name]
                                 else [GetAttrStep name, IndexStep ek])"
  from Validate_block_member [OF assms(1-3)] obtain av bds where
    av: "GetAttr val name = Some av" and nv: "nested_Validate conv blockS name av = Some bds"
    and sub: "set bds \<subseteq> set ds"
    by blast
  from nv have ve: "validate_elems path_of (Validate conv (Content blockS)) av = Some bds"
    unfolding path_of_def nested_Validate_elems [OF assms(4)] .
  from validate_elems_memI [OF ve] obtain it where it: "ElementIterator av = Some it"
    and fwd: "\<forall>kv \<in> set it. \<exists>ds'. Validate conv (Content blockS) (snd kv) = Some ds' \<and>
              (\<forall>d' \<in> set ds'. d'\<lparr>Path := path_of (fst kv) @ Path d'\<rparr> \<in> set bds)"
    by blast
  have fwd': "\<forall>kv \<in> set it. \<exists>ds'. Validate conv (Content blockS) (snd kv) = Some ds' \<and>
              (\<forall>d' \<in> set ds'.
                 (Path d' = [] \<or> (\<exists>n rest. Path d' = GetAttrStep n # rest)) \<and>
                 d'\<lparr>Path := path_of (fst kv) @ Path d'\<rparr> \<in> set bds)"
  proof
    fix kv assume "kv \<in> set it"
    with fwd obtain ds' where ds': "Validate conv (Content blockS) (snd kv) = Some ds'"
      "\<forall>d' \<in> set ds'. d'\<lparr>Path := path_of (fst kv) @ Path d'\<rparr> \<in> set bds"
      by blast
    from Validate_paths [OF ds'(1)] ds'(2)
    have "\<forall>d' \<in> set ds'.
                 (Path d' = [] \<or> (\<exists>n rest. Path d' = GetAttrStep n # rest)) \<and>
                 d'\<lparr>Path := path_of (fst kv) @ Path d'\<rparr> \<in> set bds"
      by blast
    with ds'(1) show "\<exists>ds'. Validate conv (Content blockS) (snd kv) = Some ds' \<and>
              (\<forall>d' \<in> set ds'.
                 (Path d' = [] \<or> (\<exists>n rest. Path d' = GetAttrStep n # rest)) \<and>
                 d'\<lparr>Path := path_of (fst kv) @ Path d'\<rparr> \<in> set bds)"
      by blast
  qed
  have bwd: "\<forall>d \<in> set bds. \<exists>kv \<in> set it. \<exists>ds' d'.
              Validate conv (Content blockS) (snd kv) = Some ds' \<and> d' \<in> set ds' \<and>
              d = d'\<lparr>Path := path_of (fst kv) @ Path d'\<rparr>"
  proof
    fix d assume "d \<in> set bds"
    from validate_elems_memD [OF ve this] it
    show "\<exists>kv \<in> set it. \<exists>ds' d'.
              Validate conv (Content blockS) (snd kv) = Some ds' \<and> d' \<in> set ds' \<and>
              d = d'\<lparr>Path := path_of (fst kv) @ Path d'\<rparr>"
      by auto
  qed
  from av it nv sub fwd' bwd show ?thesis
    unfolding path_of_def by blast
qed

theorem Validate_block_paths_witness:
  "ex_missing\<lparr>Path := [GetAttrStep ''s'', GetAttrStep ''expect'']\<rparr>
     \<in> set (the (Validate ex_conv ex_blocks_schema ex_blocks_value)) \<and>
   ex_missing\<lparr>Path := [GetAttrStep ''l'', IndexStep (NumberIntVal 0), GetAttrStep ''expect'']\<rparr>
     \<in> set (the (Validate ex_conv ex_blocks_schema ex_blocks_value))"
proof -
  obtain ds where ds: "Validate ex_conv ex_blocks_schema ex_blocks_value = Some ds"
    by (simp add: ex_defs val_defs)
  have obj: "IsObjectType (Value_Type ex_blocks_value)"
    by (simp add: ex_blocks_value_def)
  have s: "(''s'', ex_set_block) \<in> set (NestedBlockTypes ex_blocks_schema)"
    and l: "(''l'', ex_list_block) \<in> set (NestedBlockTypes ex_blocks_schema)"
    by (simp_all add: ex_blocks_schema_def)
  have ns: "Nesting ex_set_block = NestingSet \<or> Nesting ex_set_block = NestingList \<or>
            Nesting ex_set_block = NestingMap"
    and nl: "Nesting ex_list_block = NestingSet \<or> Nesting ex_list_block = NestingList \<or>
            Nesting ex_list_block = NestingMap"
    by (simp_all add: ex_defs)
  have inner: "Validate ex_conv ex_check_content ex_check_elem = Some [ex_missing]"
    by (simp add: ex_defs val_defs)
  from Validate_block_paths [OF ds obj s ns]
  have A: "ex_missing\<lparr>Path := [GetAttrStep ''s'', GetAttrStep ''expect'']\<rparr> \<in> set ds"
    using inner by (auto simp: ex_defs val_defs)
  from Validate_block_paths [OF ds obj l nl]
  have B: "ex_missing\<lparr>Path := [GetAttrStep ''l'', IndexStep (NumberIntVal 0), GetAttrStep ''expect'']\<rparr> \<in> set ds"
    using inner by (auto simp: ex_defs val_defs)
  from A B ds show ?thesis by simp
qed

subsection \<open>Reconciliation driver\<close>

lemma IsWhollyKnown_stored_as [simp]: "IsWhollyKnown (stored_as ety v) = IsWhollyKnown v"
  by (cases v) simp_all

lemma ListVal_wholly_known:
  "ListVal vals = Some r \<Longrightarrow> list_all IsWhollyKnown vals \<Longrightarrow> IsWhollyKnown r"
  by (auto simp: ListVal_def list_all_iff split: if_splits)

lemma SetVal_wholly_known:
  assumes "SetVal vals = Some r" and "list_all IsWhollyKnown vals"
  shows "IsWhollyKnown r"
proof -
  from assms(1) have r: "r = SetV (elementType_of vals) (foldl set_add [] (map (stored_as (elementType_of vals)) vals))"
    by (auto simp: SetVal_def split: if_splits)
  have "set (foldl set_add [] (map (stored_as (elementType_of vals)) vals))
          \<subseteq> set (map (stored_as (elementType_of vals)) vals)"
    using set_foldl_set_add [of "[]" "map (stored_as (elementType_of vals)) vals"] by simp
  with assms(2) show ?thesis
    unfolding r by (auto simp: list_all_iff)
qed

lemma MapVal_wholly_known:
  "MapVal vals = Some r \<Longrightarrow> list_all (\<lambda>kv. IsWhollyKnown (snd kv)) vals \<Longrightarrow> IsWhollyKnown r"
  by (auto simp: MapVal_def list_all_iff split: if_splits)

lemma those_map_all:
  assumes "those (map f xs) = Some ys" and "\<And>x y. x \<in> set xs \<Longrightarrow> f x = Some y \<Longrightarrow> P y"
  shows "list_all P ys"
proof -
  from assms(1) have "list_all2 (\<lambda>x y. f x = Some y) xs ys" by (simp add: those_map_Some)
  then show ?thesis using assms(2)
    by (induction rule: list_all2_induct) auto
qed

lemma UnknownAsNull_entries:
  assumes "those (map (\<lambda>kr. map_option (Pair (fst kr)) (snd kr)) (map (map_prod id UnknownAsNull) kvs)) = Some vals"
    and "\<And>kv r. kv \<in> set kvs \<Longrightarrow> UnknownAsNull (snd kv) = Some r \<Longrightarrow> IsWhollyKnown r"
  shows "list_all (\<lambda>kv. IsWhollyKnown (snd kv)) (assign_all vals [])"
proof -
  have "those (map (\<lambda>kv. map_option (Pair (fst kv)) (UnknownAsNull (snd kv))) kvs) = Some vals"
    using assms(1) by (simp add: comp_def case_prod_beta)
  then have "list_all (\<lambda>kv. IsWhollyKnown (snd kv)) vals"
    by (rule those_map_all) (use assms(2) in auto)
  with set_assign_all [of vals "[]"] show ?thesis
    by (auto simp: list_all_iff)
qed

lemma UnknownAsNull_wholly_known:
  "UnknownAsNull v = Some r \<Longrightarrow> IsWhollyKnown r"
proof (induction v arbitrary: r)
  case (ListV t vs)
  show ?case
  proof (cases "vs = []")
    case True
    with ListV.prems show ?thesis by auto
  next
    case False
    with ListV.prems obtain vals where v: "those (map UnknownAsNull vs) = Some vals" "ListVal vals = Some r"
      by (auto split: Option.bind_splits)
    from v(1) have "list_all IsWhollyKnown vals"
      by (rule those_map_all) (rule ListV.IH)
    with v(2) show ?thesis by (rule ListVal_wholly_known)
  qed
next
  case (SetV t vs)
  show ?case
  proof (cases "vs = []")
    case True
    with SetV.prems show ?thesis by auto
  next
    case False
    with SetV.prems obtain vals where v: "those (map UnknownAsNull vs) = Some vals" "SetVal vals = Some r"
      by (auto split: Option.bind_splits)
    from v(1) have "list_all IsWhollyKnown vals"
      by (rule those_map_all) (rule SetV.IH)
    with v(2) show ?thesis by (rule SetVal_wholly_known)
  qed
next
  case (TupleV vs)
  show ?case
  proof (cases "vs = []")
    case True
    with TupleV.prems show ?thesis by auto
  next
    case False
    with TupleV.prems obtain vals where v: "those (map UnknownAsNull vs) = Some vals" "r = TupleV vals"
      by (auto simp: TupleVal_def)
    from v(1) have "list_all IsWhollyKnown vals"
      by (rule those_map_all) (rule TupleV.IH)
    with v(2) show ?thesis by simp
  qed
next
  case (MapV t kvs)
  show ?case
  proof (cases "kvs = []")
    case True
    with MapV.prems show ?thesis by auto
  next
    case False
    with MapV.prems obtain vals where
      v: "those (map (\<lambda>kr. map_option (Pair (fst kr)) (snd kr)) (map (map_prod id UnknownAsNull) kvs)) = Some vals"
         "MapVal (assign_all vals []) = Some r"
      by (auto split: Option.bind_splits)
    from v(1) have "list_all (\<lambda>kv. IsWhollyKnown (snd kv)) (assign_all vals [])"
      by (rule UnknownAsNull_entries) (use MapV.IH in \<open>auto simp: snds.simps\<close>)
    with v(2) show ?thesis by (rule MapVal_wholly_known)
  qed
next
  case (ObjectV kvs)
  show ?case
  proof (cases "kvs = []")
    case True
    with ObjectV.prems show ?thesis by auto
  next
    case False
    with ObjectV.prems obtain vals where
      v: "those (map (\<lambda>kr. map_option (Pair (fst kr)) (snd kr)) (map (map_prod id UnknownAsNull) kvs)) = Some vals"
         "r = ObjectV (assign_all vals [])"
      by (auto simp: ObjectVal_def split: Option.bind_splits)
    from v(1) have "list_all (\<lambda>kv. IsWhollyKnown (snd kv)) (assign_all vals [])"
      by (rule UnknownAsNull_entries) (use ObjectV.IH in \<open>auto simp: snds.simps\<close>)
    with v(2) show ?thesis by simp
  qed
qed auto

lemma agree_at_Wrap:
  "agree_at ctx client args f g \<Longrightarrow>
   WrapFunctionWithReturnValueCty f wantTy ctx client args =
   WrapFunctionWithReturnValueCty g wantTy ctx client args"
  by (cases f; cases g; cases ctx; cases client)
    (auto simp: agree_at_def WrapFunctionWithReturnValueCty_def split: option.splits sum.splits)

text \<open>
  C8, as amended. When \<open>applyChange\<close> returns, every unknown inside the planned value has been
  converted to null before the dispatch: the planned value \<open>p\<close> that is handed over holds no
  unknown at any depth. The operation function chosen (\<open>sel\<close>) and the values handed to it
  (\<open>args\<close>) are the create function with \<open>p\<close> when the prior value is null, the delete function
  with the prior value when \<open>p\<close> is null, and the update function with the prior value and \<open>p\<close>
  otherwise; the prior value is handed over as it was received. The operation functions are
  used in no other way: a resource type with the same schema whose chosen function treats
  the context, the client and these values alike gives the same result; and when the chosen
  function takes the context, the client and the values and returns a value, the result is
  that value, with a null or unknown value replaced by the one of the schema's type, and the
  diagnostics returned.
\<close>

theorem applyChange_planned_known:
  assumes "applyChange rt ctx client prior planned = Some res"
  shows "\<exists>p sel args. UnknownAsNull planned = Some p \<and> IsWhollyKnown p \<and>
           (sel, args) = (if IsNull prior then (createFn, [p])
                          else if IsNull p then (deleteFn, [prior])
                          else (updateFn, [prior, p])) \<and>
           (\<forall>rt'. configSchema rt' = configSchema rt \<and> agree_at ctx client args (sel rt') (sel rt)
              \<longrightarrow> applyChange rt' ctx client prior planned = Some res) \<and>
           (\<forall>x c takesCtx takesClient accepts call retVal diags.
              ctx = Some x \<and> client = Some c \<and> sel rt = Fn_func takesCtx takesClient accepts call \<and>
              takesCtx x = None \<and> takesClient c = None \<and> accepts args = [] \<and>
              call x c args = Some (Inr retVal, diags)
              \<longrightarrow> res = (if IsNull retVal then NullVal (ImpliedCtyType (configSchema rt))
                         else if \<not> IsKnown retVal then UnknownVal (ImpliedCtyType (configSchema rt))
                         else retVal,
                         diags))"
proof -
  from assms obtain p where p: "UnknownAsNull planned = Some p"
    by (auto simp: applyChange_def split: Option.bind_splits)
  have known: "IsWhollyKnown p" using p by (rule UnknownAsNull_wholly_known)
  define sel :: "('a, 'b, 'c) managedResourceType \<Rightarrow> ('b, 'c) OperationFn"
    where "sel = (\<lambda>r. operation_fn r (fst (apply_dispatch prior p)))"
  define args where "args = snd (apply_dispatch prior p)"
  have sel: "(sel, args) = (if IsNull prior then (createFn, [p])
                          else if IsNull p then (deleteFn, [prior])
                          else (updateFn, [prior, p]))"
    by (auto simp: sel_def args_def apply_dispatch_def fun_eq_iff)
  have unfolded: "applyChange r ctx client prior planned =
      do { w \<leftarrow> WrapFunctionWithReturnValueCty (sel r) (ImpliedCtyType (configSchema r)) ctx client args;
           (case w of
              Inl err \<Rightarrow>
                Some (NullVal (ImpliedCtyType (configSchema r)),
                      [\<lparr>Severity = Error, Summary = ''Invalid provider implementation'',
                         Detail = ''Invalid '' @ operation_name (fst (apply_dispatch prior p)) @ '': '' @
                           err @ ''.'' @ [CHR 0x0A] @
                           ''This is a bug in the provider that should be reported in its own issue tracker.'',
                         Path = []\<rparr>])
            | Inr res \<Rightarrow>
                Some (if IsNull (fst res) then NullVal (ImpliedCtyType (configSchema r))
                      else if \<not> IsKnown (fst res) then UnknownVal (ImpliedCtyType (configSchema r))
                      else fst res,
                      snd res)) }" for r :: "('a, 'b, 'c) managedResourceType"
    by (simp only: applyChange_def p Option.bind.bind_lunit sel_def args_def)
  have same: "applyChange rt' ctx client prior planned = Some res"
    if "configSchema rt' = configSchema rt \<and> agree_at ctx client args (sel rt') (sel rt)" for rt'
  proof -
    from that have W: "WrapFunctionWithReturnValueCty (sel rt') (ImpliedCtyType (configSchema rt)) ctx client args =
               WrapFunctionWithReturnValueCty (sel rt) (ImpliedCtyType (configSchema rt)) ctx client args"
      by (simp add: agree_at_Wrap)
    from that have schema: "configSchema rt' = configSchema rt" by simp
    have "applyChange rt' ctx client prior planned = applyChange rt ctx client prior planned"
      by (simp only: unfolded schema W)
    with assms show ?thesis by simp
  qed
  have called: "res = (if IsNull retVal then NullVal (ImpliedCtyType (configSchema rt))
                         else if \<not> IsKnown retVal then UnknownVal (ImpliedCtyType (configSchema rt))
                         else retVal,
                         diags)"
    if "ctx = Some x \<and> client = Some c \<and> sel rt = Fn_func takesCtx takesClient accepts call \<and>
        takesCtx x = None \<and> takesClient c = None \<and> accepts args = [] \<and>
        call x c args = Some (Inr retVal, diags)"
    for x c takesCtx takesClient accepts call retVal diags
  proof -
    from that have "WrapFunctionWithReturnValueCty (sel rt) (ImpliedCtyType (configSchema rt)) ctx client args =
                      Some (Inr (retVal, diags))"
      by (simp add: WrapFunctionWithReturnValueCty_def)
    with assms show ?thesis
      by (auto simp: unfolded)
  qed
  from p known sel same called show ?thesis by blast
qed

theorem applyChange_planned_known_witness:
  "\<exists>p. UnknownAsNull (ObjectV [(''a'', UnknownVal cty_String)]) = Some p \<and> IsWhollyKnown p \<and>
        applyChange ex_probe_rt (Some ()) (Some ()) (NullVal (cty_Object [(''a'', cty_String)]))
          (ObjectV [(''a'', UnknownVal cty_String)]) =
        Some (ObjectV [(''a'', NullVal cty_String)], [])"
proof -
  have h: "applyChange ex_first_rt (Some ()) (Some ()) (NullVal (cty_Object [(''a'', cty_String)]))
             (ObjectV [(''a'', UnknownVal cty_String)]) =
           Some (ObjectV [(''a'', NullVal cty_String)], [])"
    by (simp add: applyChange_def apply_dispatch_def WrapFunctionWithReturnValueCty_def
        ex_first_rt_def ex_first_fn_def ObjectVal_def assign_all_def)
  from applyChange_planned_known [OF h]
  obtain p and sel :: "(unit, unit, unit) managedResourceType \<Rightarrow> (unit, unit) OperationFn" and args where
    p: "UnknownAsNull (ObjectV [(''a'', UnknownVal cty_String)]) = Some p" "IsWhollyKnown p"
    and sel: "(sel, args) = (createFn, [p])"
    and same: "\<And>rt'. configSchema rt' = configSchema ex_first_rt \<Longrightarrow>
               agree_at (Some ()) (Some ()) args (sel rt') (sel ex_first_rt) \<Longrightarrow>
               applyChange rt' (Some ()) (Some ()) (NullVal (cty_Object [(''a'', cty_String)]))
                 (ObjectV [(''a'', UnknownVal cty_String)]) =
               Some (ObjectV [(''a'', NullVal cty_String)], [])"
    by auto
  from sel have sel': "sel = createFn" "args = [p]" by simp_all
  have "agree_at (Some ()) (Some ()) args (sel ex_probe_rt) (sel ex_first_rt)"
    using p(2) unfolding sel'
    by (simp add: agree_at_def ex_probe_rt_def ex_first_rt_def ex_probe_fn_def ex_first_fn_def)
  moreover have "configSchema ex_probe_rt = configSchema ex_first_rt"
    by (simp add: ex_probe_rt_def ex_first_rt_def)
  ultimately have "applyChange ex_probe_rt (Some ()) (Some ()) (NullVal (cty_Object [(''a'', cty_String)]))
                 (ObjectV [(''a'', UnknownVal cty_String)]) =
               Some (ObjectV [(''a'', NullVal cty_String)], [])"
    by (rule same [rotated])
  with p show ?thesis by blast
qed

text \<open>
  C8, as stated, fails for the prior value: it is handed to the update function as it was
  received. For a prior value that holds an unknown and a planned value that holds none, an
  update function that returns the first value it is given returns that prior value, unknown
  included.
\<close>

theorem applyChange_prior_unknown:
  "applyChange ex_first_rt (Some ()) (Some ()) (ObjectV [(''a'', UnknownVal cty_String)])
     (ObjectV [(''a'', StringVal ''x'')]) =
     Some (ObjectV [(''a'', UnknownVal cty_String)], []) \<and>
   \<not> IsWhollyKnown (ObjectV [(''a'', UnknownVal cty_String)])"
  by (simp add: applyChange_def apply_dispatch_def WrapFunctionWithReturnValueCty_def
      ex_first_rt_def ex_first_fn_def ObjectVal_def assign_all_def)

end
